theory Spec2Isabelle
  imports Complex_Main "HOL-Library.AList" "HOL-Library.Char_ord" "HOL-Library.List_Lexorder"
begin

section \<open>Values, dictionaries and errors\<close>

text \<open>
  The storage module passes Python dictionaries (column name to value) to SQLite and gets
  dictionaries back. A cell holds NULL (Python \<open>None\<close>), a number or a text. SQLite
  compares an INTEGER and a REAL by their numeric value (and so does Python: \<open>1 == 1.0\<close>),
  so a number is kept as the value it denotes; the code does no arithmetic on cells.
  Booleans are bound as the numbers 0 and 1. A value of a dictionary is one SQLite can
  hold; the integers that the functions take as arguments of their own (a timestamp, a
  limit) are Python integers of any size, and are checked when they are bound.
\<close>

datatype val = VNull | VNum real | VText string

text \<open>
  A Python \<open>dict\<close> keeps its keys in insertion order and holds each key once: an
  association list read with \<open>map_of\<close> and written with \<open>AList.update\<close> (replace in
  place, or append).
\<close>

type_synonym pydict = "(string \<times> val) list"

datatype error =
    ValueError string
  | KeyError string
  | AttributeError string
  | OperationalError string
  | ProgrammingError string
  | IntegrityError string
  | OverflowError string
  | TransportError string

definition is_ValueError :: "error \<Rightarrow> bool" where
  "is_ValueError e = (case e of ValueError m \<Rightarrow> True | _ \<Rightarrow> False)"

definition keys :: "pydict \<Rightarrow> string list" where
  "keys d = map fst d"

text \<open>\<open>d[k]\<close>: raises KeyError when the key is missing.\<close>

definition dict_item :: "pydict \<Rightarrow> string \<Rightarrow> error + val" where
  "dict_item d k = (case map_of d k of None \<Rightarrow> Inl (KeyError k) | Some v \<Rightarrow> Inr v)"

text \<open>\<open>d.get(k, default)\<close>; \<open>d.get(k)\<close> is \<open>dict_get d k VNull\<close>.\<close>

definition dict_get :: "pydict \<Rightarrow> string \<Rightarrow> val \<Rightarrow> val" where
  "dict_get d k dflt = (case map_of d k of None \<Rightarrow> dflt | Some v \<Rightarrow> v)"

section \<open>The SQLite store\<close>

text \<open>
  A stored row gives every column its value, NULL where nothing was written. A table has
  its columns, the columns of its uniqueness constraint and its rows in insertion order.
  The database file is a map from table names to tables; every operation of the module
  opens the file, runs one statement and commits, so the model passes the database in and
  returns it with the outcome.

  Of SQLite the model has what the statements of the module use: the insert with its
  \<open>ON CONFLICT\<close> clause on a uniqueness constraint, and the select with equality and
  \<open>>=\<close> conditions, \<open>ORDER BY\<close> and \<open>LIMIT\<close>. Other constraints of a schema (NOT NULL,
  CHECK, defaults), column affinities and BLOB values are not part of it.
\<close>

type_synonym row = "string \<Rightarrow> val"

record table =
  tcols :: "string list"
  tkey :: "string list"
  trows :: "row list"

type_synonym db = "string \<rightharpoonup> table"

text \<open>
  The statement texts the module builds are kept as syntax trees. Every write of the module
  is an \<open>INSERT INTO t (columns) VALUES (?, ...) ON CONFLICT(target) DO ...\<close>, with one
  parameter per column.
\<close>

datatype on_conflict = DoUpdateSet "string list" | DoNothing

record upsert_sql =
  ins_table :: string
  ins_columns :: "string list"
  conflict_target :: "string list"
  on_conflict :: on_conflict

text \<open>The row an INSERT would add: the listed columns get the parameters, the others NULL.\<close>

definition row_of :: "pydict \<Rightarrow> row" where
  "row_of d = (\<lambda>c. case map_of d c of None \<Rightarrow> VNull | Some v \<Rightarrow> v)"

text \<open>
  A uniqueness constraint is violated by a stored row that equals the new row on every
  column of the constraint; SQLite never takes NULL to equal anything there.
\<close>

definition conflicts :: "string list \<Rightarrow> row \<Rightarrow> row \<Rightarrow> bool" where
  "conflicts key r new = list_all (\<lambda>c. new c \<noteq> VNull \<and> r c = new c) key"

text \<open>
  \<open>DO UPDATE SET c = excluded.c, ...\<close> writes the listed columns of the stored row from the
  row that was to be inserted; \<open>DO NOTHING\<close> keeps the stored row.
\<close>

fun apply_on_conflict :: "on_conflict \<Rightarrow> row \<Rightarrow> row \<Rightarrow> row" where
  "apply_on_conflict DoNothing r excluded = r"
| "apply_on_conflict (DoUpdateSet cs) r excluded = (\<lambda>c. if c \<in> set cs then excluded c else r c)"

fun upsert_rows :: "string list \<Rightarrow> on_conflict \<Rightarrow> row \<Rightarrow> row list \<Rightarrow> row list" where
  "upsert_rows key act new [] = [new]"
| "upsert_rows key act new (r # rs) =
     (if conflicts key r new then apply_on_conflict act r new # rs
      else r # upsert_rows key act new rs)"

text \<open>
  SQLite finds a column by its name without regard to the case of ASCII letters. A table
  has no two columns whose names differ in case only, so a name that is spelled as a
  column is declared denotes that column.
\<close>

definition lower_char :: "char \<Rightarrow> char" where
  "lower_char c =
     (case map_of (zip ''ABCDEFGHIJKLMNOPQRSTUVWXYZ'' ''abcdefghijklmnopqrstuvwxyz'') c of
        None \<Rightarrow> c
      | Some l \<Rightarrow> l)"

definition lower :: "string \<Rightarrow> string" where
  "lower s = map lower_char s"

definition resolve :: "string list \<Rightarrow> string \<Rightarrow> string option" where
  "resolve cols c =
     (if c \<in> set cols then Some c else find (\<lambda>tc. lower tc = lower c) cols)"

fun resolve_all :: "string list \<Rightarrow> string list \<Rightarrow> string list option" where
  "resolve_all cols [] = Some []"
| "resolve_all cols (c # cs) =
     (case resolve cols c of
        None \<Rightarrow> None
      | Some tc \<Rightarrow>
          (case resolve_all cols cs of
             None \<Rightarrow> None
           | Some tcs \<Rightarrow> Some (tc # tcs)))"

fun resolve_on_conflict :: "string list \<Rightarrow> on_conflict \<Rightarrow> on_conflict option" where
  "resolve_on_conflict cols DoNothing = Some DoNothing"
| "resolve_on_conflict cols (DoUpdateSet cs) =
     (case resolve_all cols cs of None \<Rightarrow> None | Some tcs \<Rightarrow> Some (DoUpdateSet tcs))"

text \<open>
  A parameter handed to \<open>conn.execute\<close>: a Python integer, or a value as a dictionary
  carries it. Binding a Python integer outside the signed 64-bit range raises
  OverflowError.
\<close>

datatype param = PInt int | PVal val

definition bind :: "param \<Rightarrow> error + val" where
  "bind p =
     (case p of
        PVal v \<Rightarrow> Inr v
      | PInt i \<Rightarrow>
          if - (2 ^ 63) \<le> i \<and> i < 2 ^ 63 then Inr (VNum (of_int i))
          else Inl (OverflowError ''Python int too large to convert to SQLite INTEGER''))"

fun bind_all :: "param list \<Rightarrow> error + val list" where
  "bind_all [] = Inr []"
| "bind_all (p # ps) =
     (case bind p of
        Inl e \<Rightarrow> Inl e
      | Inr v \<Rightarrow> (case bind_all ps of Inl e \<Rightarrow> Inl e | Inr vs \<Rightarrow> Inr (v # vs)))"

text \<open>
  \<open>conn.execute(sql, params); conn.commit()\<close> under the module lock, for an upsert
  statement: the statement is prepared (its table and columns are found and the conflict
  target is matched with the uniqueness constraint), the parameters are counted and
  bound, and the statement is run. A statement that fails at any of these raises and
  leaves the database as it was. Where the column list names a column twice, the leftmost
  value is the one inserted.
\<close>

definition prepare_upsert :: "table \<Rightarrow> upsert_sql \<Rightarrow> error + (string list \<times> on_conflict)" where
  "prepare_upsert t sql =
     (case resolve_all (tcols t) (ins_columns sql) of
        None \<Rightarrow> Inl (OperationalError (''table '' @ ins_table sql @ '' has no such column''))
      | Some columns \<Rightarrow>
          (case resolve_all (tcols t) (conflict_target sql) of
             None \<Rightarrow> Inl (OperationalError ''no such column'')
           | Some target \<Rightarrow>
               if set target \<noteq> set (tkey t) then
                 Inl (OperationalError
                   ''ON CONFLICT clause does not match any PRIMARY KEY or UNIQUE constraint'')
               else
                 (case resolve_on_conflict (tcols t) (on_conflict sql) of
                    None \<Rightarrow> Inl (OperationalError ''no such column'')
                  | Some act \<Rightarrow> Inr (columns, act))))"

definition execute :: "db \<Rightarrow> upsert_sql \<Rightarrow> param list \<Rightarrow> (error + unit) \<times> db" where
  "execute d sql params =
     (case d (ins_table sql) of
        None \<Rightarrow> (Inl (OperationalError (''no such table: '' @ ins_table sql)), d)
      | Some t \<Rightarrow>
          (case prepare_upsert t sql of
             Inl e \<Rightarrow> (Inl e, d)
           | Inr (columns, act) \<Rightarrow>
               if length params \<noteq> length columns then
                 (Inl (ProgrammingError ''Incorrect number of bindings supplied''), d)
               else
                 (case bind_all params of
                    Inl e \<Rightarrow> (Inl e, d)
                  | Inr vals \<Rightarrow>
                      (Inr (),
                       d(ins_table sql \<mapsto>
                         t\<lparr>trows := upsert_rows (tkey t) act
                                      (row_of (zip columns vals)) (trows t)\<rparr>)))))"

text \<open>
  Every read of the module is a
  \<open>SELECT columns FROM t [WHERE c1 = ? AND c2 >= ? ...] [ORDER BY ...] [LIMIT ?]\<close>;
  the parameters fill the conditions in order, then the limit.
\<close>

datatype cond = ColEq string | ColGe string

fun cond_column :: "cond \<Rightarrow> string" where
  "cond_column (ColEq c) = c"
| "cond_column (ColGe c) = c"

fun cond_on :: "cond \<Rightarrow> string \<Rightarrow> cond" where
  "cond_on (ColEq c) tc = ColEq tc"
| "cond_on (ColGe c) tc = ColGe tc"

record select_sql =
  sel_cols :: "string list option"
  sel_from :: string
  sel_where :: "cond list"
  sel_order_by :: "string list"
  sel_limit :: bool

text \<open>SQLite's order of values: NULL first, then numbers by value, then texts bytewise.\<close>

fun val_le :: "val \<Rightarrow> val \<Rightarrow> bool" where
  "val_le VNull b = True"
| "val_le (VNum x) VNull = False"
| "val_le (VNum x) (VNum y) = (x \<le> y)"
| "val_le (VNum x) (VText t) = True"
| "val_le (VText s) (VText t) = (s \<le> t)"
| "val_le (VText s) b = False"

text \<open>A comparison with NULL on either side is not true, so the row is not selected.\<close>

fun holds :: "cond \<Rightarrow> val \<Rightarrow> row \<Rightarrow> bool" where
  "holds (ColEq c) v r = (r c \<noteq> VNull \<and> v \<noteq> VNull \<and> r c = v)"
| "holds (ColGe c) v r = (r c \<noteq> VNull \<and> v \<noteq> VNull \<and> val_le v (r c))"

text \<open>\<open>ORDER BY c1, c2, ...\<close> ascending; rows that tie keep their stored order.\<close>

fun order_le :: "string list \<Rightarrow> row \<Rightarrow> row \<Rightarrow> bool" where
  "order_le [] a b = True"
| "order_le (c # cs) a b = (if a c = b c then order_le cs a b else val_le (a c) (b c))"

fun insort_row :: "string list \<Rightarrow> row \<Rightarrow> row list \<Rightarrow> row list" where
  "insort_row cs x [] = [x]"
| "insort_row cs x (y # ys) =
     (if order_le cs x y then x # y # ys else y # insort_row cs x ys)"

definition order_by :: "string list \<Rightarrow> row list \<Rightarrow> row list" where
  "order_by cs rs = foldr (insort_row cs) rs []"

text \<open>\<open>LIMIT n\<close>: the first n rows; a negative n puts no bound on the number of rows.\<close>

definition limit_rows :: "val \<Rightarrow> row list \<Rightarrow> error + row list" where
  "limit_rows v rs =
     (case v of
        VNum x \<Rightarrow>
          if of_int \<lfloor>x\<rfloor> \<noteq> x then Inl (IntegrityError ''datatype mismatch'')
          else if x < 0 then Inr rs
          else Inr (take (nat \<lfloor>x\<rfloor>) rs)
      | _ \<Rightarrow> Inl (IntegrityError ''datatype mismatch''))"

text \<open>\<open>dict(row)\<close> for a row of the result: the selected columns, in order.\<close>

definition dict_of_row :: "string list \<Rightarrow> row \<Rightarrow> pydict" where
  "dict_of_row cs r = map (\<lambda>c. (c, r c)) cs"

text \<open>
  \<open>_query(query, params)\<close>: prepare the statement, bind the parameters, run it and
  return the rows as dictionaries, keyed by the names of the columns as declared.
\<close>

definition prepare_select ::
  "table \<Rightarrow> select_sql \<Rightarrow> (string list \<times> cond list \<times> string list) option" where
  "prepare_select t sql =
     (case (case sel_cols sql of None \<Rightarrow> Some (tcols t) | Some cs \<Rightarrow> resolve_all (tcols t) cs) of
        None \<Rightarrow> None
      | Some cols \<Rightarrow>
          (case resolve_all (tcols t) (map cond_column (sel_where sql)) of
             None \<Rightarrow> None
           | Some where_cols \<Rightarrow>
               (case resolve_all (tcols t) (sel_order_by sql) of
                  None \<Rightarrow> None
                | Some order_cols \<Rightarrow>
                    Some (cols, map (\<lambda>(c, tc). cond_on c tc) (zip (sel_where sql) where_cols),
                          order_cols))))"

definition run_select ::
  "table \<Rightarrow> string list \<Rightarrow> cond list \<Rightarrow> string list \<Rightarrow> bool \<Rightarrow> val list \<Rightarrow> error + pydict list" where
  "run_select t cols conds order_cols has_limit vals =
     (let matching =
            filter (\<lambda>r. list_all (\<lambda>(c, v). holds c v r) (zip conds vals)) (trows t);
          ordered = (if order_cols = [] then matching else order_by order_cols matching)
      in if has_limit then
           (case limit_rows (last vals) ordered of
              Inl e \<Rightarrow> Inl e
            | Inr rs \<Rightarrow> Inr (map (dict_of_row cols) rs))
         else Inr (map (dict_of_row cols) ordered))"

definition query :: "db \<Rightarrow> select_sql \<Rightarrow> param list \<Rightarrow> error + pydict list" where
  "query d sql params =
     (case d (sel_from sql) of
        None \<Rightarrow> Inl (OperationalError (''no such table: '' @ sel_from sql))
      | Some t \<Rightarrow>
          (case prepare_select t sql of
             None \<Rightarrow> Inl (OperationalError ''no such column'')
           | Some (cols, conds, order_cols) \<Rightarrow>
               if length params \<noteq> length (sel_where sql) + (if sel_limit sql then 1 else 0)
               then Inl (ProgrammingError ''Incorrect number of bindings supplied'')
               else
                 (case bind_all params of
                    Inl e \<Rightarrow> Inl e
                  | Inr vals \<Rightarrow> run_select t cols conds order_cols (sel_limit sql) vals)))"

section \<open>storage/sqlite\_manager.py\<close>

definition ALLOWED_BAR_TABLES :: "string set" where
  "ALLOWED_BAR_TABLES = {''bars_1m'', ''bars_5m'', ''bars_15m''}"

text \<open>
  \<open>_build_upsert_sql(table, payload, conflict_columns, skip_update)\<close>. The parameters
  \<open>[payload[col] for col in columns]\<close> are the values of the dictionary in key order.
\<close>

definition build_upsert_sql ::
  "string \<Rightarrow> pydict \<Rightarrow> string list \<Rightarrow> string list \<Rightarrow> error + (upsert_sql \<times> param list)" where
  "build_upsert_sql tbl payload conflict_columns skip_update =
     (let columns = keys payload in
      if columns = [] then Inl (ValueError ''payload must include at least one column'')
      else
        let update_columns =
              filter (\<lambda>col. col \<notin> set conflict_columns \<and> col \<notin> set skip_update) columns;
            sql = (if update_columns \<noteq> [] then
                     \<lparr>ins_table = tbl, ins_columns = columns,
                      conflict_target = conflict_columns,
                      on_conflict = DoUpdateSet update_columns\<rparr>
                   else
                     \<lparr>ins_table = tbl, ins_columns = columns,
                      conflict_target = conflict_columns,
                      on_conflict = DoNothing\<rparr>);
            params = map (\<lambda>(col, v). PVal v) payload
        in Inr (sql, params))"

definition bar_identity :: "string list" where
  "bar_identity = [''source'', ''exchange'', ''chain'', ''symbol'', ''close_ts'']"

definition upsert_bar :: "db \<Rightarrow> string \<Rightarrow> pydict \<Rightarrow> (error + unit) \<times> db" where
  "upsert_bar d tbl bar =
     (if tbl \<notin> ALLOWED_BAR_TABLES then
        (Inl (ValueError (''Unsupported bars table: '' @ tbl)), d)
      else if bar = [] then (Inl (ValueError ''bar payload is empty''), d)
      else
        (case build_upsert_sql tbl bar bar_identity [''bid''] of
           Inl e \<Rightarrow> (Inl e, d)
         | Inr (sql, params) \<Rightarrow> execute d sql params))"

text \<open>
  \<open>fetch_bars(table, symbol, since_ts, limit)\<close> grows the query text and the parameter
  list together, as the source does.
\<close>

definition fetch_bars ::
  "db \<Rightarrow> string \<Rightarrow> string \<Rightarrow> int option \<Rightarrow> int option \<Rightarrow> error + pydict list" where
  "fetch_bars d tbl symbol since_ts limit =
     (if tbl \<notin> ALLOWED_BAR_TABLES then
        Inl (ValueError (''Unsupported bars table: '' @ tbl))
      else
        let q0 = \<lparr>sel_cols = None, sel_from = tbl, sel_where = [ColEq ''symbol''],
                  sel_order_by = [], sel_limit = False\<rparr>;
            params0 = [PVal (VText symbol)];
            (q1, params1) =
              (case since_ts of
                 None \<Rightarrow> (q0, params0)
               | Some s \<Rightarrow>
                   (q0\<lparr>sel_where := sel_where q0 @ [ColGe ''close_ts'']\<rparr>,
                    params0 @ [PInt s]));
            q2 = q1\<lparr>sel_order_by := [''close_ts'']\<rparr>;
            (q3, params3) =
              (case limit of
                 None \<Rightarrow> (q2, params1)
               | Some n \<Rightarrow> (q2\<lparr>sel_limit := True\<rparr>, params1 @ [PInt n]))
        in query d q3 params3)"

definition insert_event :: "db \<Rightarrow> pydict \<Rightarrow> (error + unit) \<times> db" where
  "insert_event d event =
     (if ''id'' \<notin> set (keys event) then
        (Inl (ValueError (''event must include 'id'' @ [CHR 0x27])), d)
      else
        (case build_upsert_sql ''events'' event [''id''] [] of
           Inl e \<Rightarrow> (Inl e, d)
         | Inr (sql, params) \<Rightarrow> execute d sql params))"

text \<open>
  \<open>set_kv(key, value, updated_at)\<close> runs a fixed statement:
  \<^verbatim>\<open>INSERT INTO kv_state (key, value, updated_at) VALUES (?, ?, ?)
  ON CONFLICT(key) DO UPDATE SET value=excluded.value, updated_at=excluded.updated_at\<close>
\<close>

definition set_kv :: "db \<Rightarrow> string \<Rightarrow> string \<Rightarrow> int \<Rightarrow> (error + unit) \<times> db" where
  "set_kv d key value updated_at =
     execute d
       \<lparr>ins_table = ''kv_state'', ins_columns = [''key'', ''value'', ''updated_at''],
        conflict_target = [''key''],
        on_conflict = DoUpdateSet [''value'', ''updated_at'']\<rparr>
       [PVal (VText key), PVal (VText value), PInt updated_at]"

text \<open>\<open>get_kv(key)\<close>: \<open>rows[0] if rows else None\<close>.\<close>

definition get_kv :: "db \<Rightarrow> string \<Rightarrow> error + pydict option" where
  "get_kv d key =
     (case query d
             \<lparr>sel_cols = Some [''key'', ''value'', ''updated_at''], sel_from = ''kv_state'',
              sel_where = [ColEq ''key''], sel_order_by = [], sel_limit = False\<rparr>
             [PVal (VText key)] of
        Inl e \<Rightarrow> Inl e
      | Inr rows \<Rightarrow> Inr (case rows of [] \<Rightarrow> None | r # _ \<Rightarrow> Some r))"

definition upsert_rule :: "db \<Rightarrow> pydict \<Rightarrow> (error + unit) \<times> db" where
  "upsert_rule d rule =
     (if ''id'' \<notin> set (keys rule) then
        (Inl (ValueError (''rule must include 'id'' @ [CHR 0x27])), d)
      else
        (case build_upsert_sql ''price_alert_rules'' rule [''id''] [] of
           Inl e \<Rightarrow> (Inl e, d)
         | Inr (sql, params) \<Rightarrow> execute d sql params))"

definition upsert_token :: "db \<Rightarrow> pydict \<Rightarrow> (error + unit) \<times> db" where
  "upsert_token d token =
     (if ''id'' \<notin> set (keys token) then
        (Inl (ValueError (''token must include 'id'' @ [CHR 0x27])), d)
      else
        (case build_upsert_sql ''token_registry'' token [''id''] [] of
           Inl e \<Rightarrow> (Inl e, d)
         | Inr (sql, params) \<Rightarrow> execute d sql params))"

text \<open>
  \<open>list_tokens(enabled)\<close>: \<open>SELECT * FROM token_registry [WHERE enabled = ?] ORDER BY symbol\<close>,
  the parameter being \<open>1 if enabled else 0\<close>.
\<close>

definition list_tokens :: "db \<Rightarrow> bool option \<Rightarrow> error + pydict list" where
  "list_tokens d enabled =
     (let q0 = \<lparr>sel_cols = None, sel_from = ''token_registry'', sel_where = [],
                sel_order_by = [], sel_limit = False\<rparr>;
          (q1, params) =
            (case enabled of
               None \<Rightarrow> (q0, [])
             | Some b \<Rightarrow> (q0\<lparr>sel_where := [ColEq ''enabled'']\<rparr>, [PInt (if b then 1 else 0)]));
          q2 = q1\<lparr>sel_order_by := [''symbol'']\<rparr>
      in query d q2 params)"

text \<open>
  The names the module binds at top level; \<open>sqlite_manager.name\<close> for any other name
  raises AttributeError.
\<close>

definition sqlite_manager_names :: "string list" where
  "sqlite_manager_names =
     [''annotations'', ''os'', ''sqlite3'', ''Path'', ''Lock'',
      ''Any'', ''Dict'', ''Iterable'', ''List'', ''Optional'',
      ''_DB_PATH_ENV'', ''_DEFAULT_DB_FILENAME'', ''_ALLOWED_BAR_TABLES'', ''_connection_lock'',
      ''get_db_path'', ''_connect'', ''_execute'', ''_executemany'', ''_query'',
      ''_build_upsert_sql'', ''upsert_bar'', ''fetch_bars'', ''insert_event'', ''set_kv'',
      ''get_kv'', ''upsert_rule'', ''list_rules'', ''upsert_token'', ''list_tokens'',
      ''__all__'']"

definition sqlite_manager_all :: "string list" where
  "sqlite_manager_all =
     [''get_db_path'', ''upsert_bar'', ''fetch_bars'', ''insert_event'', ''set_kv'',
      ''get_kv'', ''upsert_rule'', ''list_rules'', ''upsert_token'', ''list_tokens'']"

definition sqlite_manager_getattr :: "string \<Rightarrow> error + string" where
  "sqlite_manager_getattr name =
     (if name \<in> set sqlite_manager_names then Inr name
      else Inl (AttributeError
        (''module 'storage.sqlite_manager' has no attribute '' @ [CHR 0x27] @ name @ [CHR 0x27])))"

section \<open>connectors/dex\_api.py\<close>

text \<open>
  An adapter's \<open>fetch_1m_bar(chain, token_address, pool_address, since_ts)\<close> talks to the
  network: it takes the state of the outside world \<open>'w\<close> and returns the bars or the
  exception it raised, with the world after the call. The registry \<open>_ADAPTERS\<close> maps
  exchange names to adapters; \<open>_ADAPTERS.get(x)\<close> for an \<open>x\<close> that is no text finds
  nothing.
\<close>

type_synonym 'w adapter =
  "'w \<Rightarrow> val \<Rightarrow> val \<Rightarrow> val \<Rightarrow> int option \<Rightarrow> (error + pydict list) \<times> 'w"

type_synonym 'w adapters = "string \<rightharpoonup> 'w adapter"

definition adapters_get :: "'w adapters \<Rightarrow> val \<Rightarrow> 'w adapter option" where
  "adapters_get reg x = (case x of VText name \<Rightarrow> reg name | _ \<Rightarrow> None)"

text \<open>\<open>{**d, k1: v1, k2: v2, ...}\<close>: the later entries overwrite the earlier ones.\<close>

definition dict_merge :: "pydict \<Rightarrow> pydict \<Rightarrow> pydict" where
  "dict_merge d items = fold (\<lambda>(k, v). AList.update k v) items d"

text \<open>The inner loop \<open>for bar in bars\<close> of \<open>sync_registered_tokens\<close>.\<close>

fun upsert_market_bars :: "db \<Rightarrow> pydict \<Rightarrow> pydict list \<Rightarrow> int \<Rightarrow> (error + int) \<times> db" where
  "upsert_market_bars d token [] inserted = (Inr inserted, d)"
| "upsert_market_bars d token (bar # bars) inserted =
     (case dict_item token ''exchange'' of
        Inl e \<Rightarrow> (Inl e, d)
      | Inr exchange \<Rightarrow>
          (case dict_item token ''symbol'' of
             Inl e \<Rightarrow> (Inl e, d)
           | Inr symbol \<Rightarrow>
               let payload =
                     dict_merge bar
                       [(''source'', VText ''dex''),
                        (''exchange'', exchange),
                        (''chain'', dict_get token ''chain'' (VText '''')),
                        (''symbol'', symbol),
                        (''base'', dict_get token ''base'' (VText '''')),
                        (''quote'', dict_get token ''quote'' (VText ''''))]
               in (case upsert_bar d ''bars_1m'' payload of
                     (Inl e, d') \<Rightarrow> (Inl e, d')
                   | (Inr u, d') \<Rightarrow> upsert_market_bars d' token bars (inserted + 1))))"

text \<open>
  The outer loop \<open>for token in tokens\<close>. A market without adapter is skipped; an exception
  of the adapter is logged (the message reads \<open>token["symbol"]\<close>) and the market is
  skipped; an exception of \<open>upsert_bar\<close> is not caught.
\<close>

fun sync_tokens ::
  "'w adapters \<Rightarrow> int option \<Rightarrow> pydict list \<Rightarrow> int \<Rightarrow> db \<Rightarrow> 'w \<Rightarrow> (error + int) \<times> db \<times> 'w" where
  "sync_tokens reg since_ts [] inserted d w = (Inr inserted, d, w)"
| "sync_tokens reg since_ts (token # tokens) inserted d w =
     (case dict_item token ''exchange'' of
        Inl e \<Rightarrow> (Inl e, d, w)
      | Inr exchange \<Rightarrow>
          (case adapters_get reg exchange of
             None \<Rightarrow> sync_tokens reg since_ts tokens inserted d w
           | Some adapter \<Rightarrow>
               (case adapter w (dict_get token ''chain'' (VText ''''))
                       (dict_get token ''token_address'' (VText ''''))
                       (dict_get token ''pool_address'' VNull) since_ts of
                  (Inl exc, w') \<Rightarrow>
                    (case dict_item token ''symbol'' of
                       Inl e \<Rightarrow> (Inl e, d, w')
                     | Inr symbol \<Rightarrow> sync_tokens reg since_ts tokens inserted d w')
                | (Inr bars, w') \<Rightarrow>
                    (case upsert_market_bars d token bars inserted of
                       (Inl e, d') \<Rightarrow> (Inl e, d', w')
                     | (Inr n, d') \<Rightarrow> sync_tokens reg since_ts tokens n d' w'))))"

definition sync_registered_tokens ::
  "'w adapters \<Rightarrow> int option \<Rightarrow> db \<Rightarrow> 'w \<Rightarrow> (error + int) \<times> db \<times> 'w" where
  "sync_registered_tokens reg since_ts d w =
     (case list_tokens d (Some True) of
        Inl e \<Rightarrow> (Inl e, d, w)
      | Inr tokens \<Rightarrow> sync_tokens reg since_ts tokens 0 d w)"

section \<open>ui/app.py\<close>

text \<open>
  What \<open>_dashboard\<close> asks of the storage module: \<open>sqlite_manager.fetch_latest_bar\<close> for
  each configured symbol, then \<open>sqlite_manager.fetch_undelivered_events\<close>. The first name
  the module does not bind ends the function with its AttributeError.
\<close>

fun resolve_names :: "string list \<Rightarrow> error + unit" where
  "resolve_names [] = Inr ()"
| "resolve_names (name # names) =
     (case sqlite_manager_getattr name of
        Inl e \<Rightarrow> Inl e
      | Inr f \<Rightarrow> resolve_names names)"

definition dashboard :: "string list \<Rightarrow> error + unit" where
  "dashboard symbols =
     resolve_names (map (\<lambda>symbol. ''fetch_latest_bar'') symbols @ [''fetch_undelivered_events''])"

section \<open>Notions of the specification\<close>

text \<open>
  Modelled from the spec: the table definitions (the CREATE TABLE statements) are not among
  the sources. Following the data model of the specification, a table is taken to have one
  uniqueness constraint: the composite identity for the bar tables, \<open>id\<close> for events, rules
  and tokens, \<open>key\<close> for the watermarks. \<open>has_table d name key cols\<close> says that the
  database holds the table with that constraint and at least the columns \<open>cols\<close>.
\<close>

definition has_table :: "db \<Rightarrow> string \<Rightarrow> string list \<Rightarrow> string list \<Rightarrow> bool" where
  "has_table d name key cols =
     (case d name of
        None \<Rightarrow> False
      | Some t \<Rightarrow> tkey t = key \<and> set key \<subseteq> set (tcols t) \<and> set cols \<subseteq> set (tcols t))"

definition rows_of :: "db \<Rightarrow> string \<Rightarrow> row list" where
  "rows_of d name = (case d name of None \<Rightarrow> [] | Some t \<Rightarrow> trows t)"

text \<open>
  What a table makes of a payload: the column that a key of the payload denotes (the key
  itself when no column is found), whether every key denotes a column, and the row that an
  insert of the payload would add.
\<close>

definition resolved :: "string list \<Rightarrow> string \<Rightarrow> string" where
  "resolved cols k = (case resolve cols k of None \<Rightarrow> k | Some tc \<Rightarrow> tc)"

definition accepts :: "string list \<Rightarrow> pydict \<Rightarrow> bool" where
  "accepts cols p = list_all (\<lambda>k. resolve cols k \<noteq> None) (keys p)"

definition new_row :: "string list \<Rightarrow> pydict \<Rightarrow> row" where
  "new_row cols p = row_of (map (\<lambda>(k, v). (resolved cols k, v)) p)"

text \<open>
  The identity of a bar: its values of source, exchange, chain, symbol and close\_ts. A
  payload has an identity in a table when the row it would add has a value other than
  NULL (Python \<open>None\<close>) in each of the five.
\<close>

definition identity :: "row \<Rightarrow> val list" where
  "identity r = map r bar_identity"

definition has_identity :: "string list \<Rightarrow> pydict \<Rightarrow> bool" where
  "has_identity cols bar = list_all (\<lambda>c. new_row cols bar c \<noteq> VNull) bar_identity"

text \<open>The integers SQLite can hold.\<close>

definition int64 :: "int \<Rightarrow> bool" where
  "int64 i = (- (2 ^ 63) \<le> i \<and> i < 2 ^ 63)"

definition bindable :: "int option \<Rightarrow> bool" where
  "bindable x = (case x of None \<Rightarrow> True | Some i \<Rightarrow> int64 i)"

text \<open>A sequence of \<open>upsert_bar\<close> calls on one table, each on the store the last one left.\<close>

fun upsert_bars :: "db \<Rightarrow> string \<Rightarrow> pydict list \<Rightarrow> db" where
  "upsert_bars d tbl [] = d"
| "upsert_bars d tbl (bar # bars) = upsert_bars (snd (upsert_bar d tbl bar)) tbl bars"

text \<open>
  What \<open>fetch_bars\<close> is to apply to the rows of a symbol: the filter
  \<open>close_ts >= since_ts\<close> when \<open>since_ts\<close> is given, and the cap of \<open>limit\<close> rows when
  \<open>limit\<close> is given (SQLite takes a negative limit for no limit).
\<close>

definition since_ok :: "int option \<Rightarrow> row \<Rightarrow> bool" where
  "since_ok since_ts r =
     (case since_ts of
        None \<Rightarrow> True
      | Some s \<Rightarrow> r ''close_ts'' \<noteq> VNull \<and> val_le (VNum (of_int s)) (r ''close_ts''))"

definition limited :: "int option \<Rightarrow> row list \<Rightarrow> row list" where
  "limited limit rs =
     (case limit of None \<Rightarrow> rs | Some n \<Rightarrow> if n < 0 then rs else take (nat n) rs)"

text \<open>
  The specification names a timeframe \<open>1m\<close>, \<open>5m\<close> or \<open>15m\<close>; the code is given the
  name of the timeframe's table.
\<close>

definition table_of_timeframe :: "string \<Rightarrow> string" where
  "table_of_timeframe tf = ''bars_'' @ tf"

definition raises_ValueError :: "error + 'a \<Rightarrow> bool" where
  "raises_ValueError res = (case res of Inl e \<Rightarrow> is_ValueError e | Inr x \<Rightarrow> False)"

text \<open>
  What one ingestion cycle is to write, in the words of the specification: for every market
  in listing order whose exchange has an adapter and whose fetch did not fail, each bar
  returned, tagged with the identity fields of the market; nothing for the other markets.
\<close>

definition market_payloads :: "pydict \<Rightarrow> pydict list \<Rightarrow> pydict list" where
  "market_payloads token bars =
     map (\<lambda>bar. dict_merge bar
            [(''source'', VText ''dex''),
             (''exchange'', dict_get token ''exchange'' VNull),
             (''chain'', dict_get token ''chain'' (VText '''')),
             (''symbol'', dict_get token ''symbol'' VNull),
             (''base'', dict_get token ''base'' (VText '''')),
             (''quote'', dict_get token ''quote'' (VText ''''))]) bars"

fun cycle_payloads ::
  "'w adapters \<Rightarrow> int option \<Rightarrow> pydict list \<Rightarrow> 'w \<Rightarrow> pydict list \<times> 'w" where
  "cycle_payloads reg since_ts [] w = ([], w)"
| "cycle_payloads reg since_ts (token # tokens) w =
     (case adapters_get reg (dict_get token ''exchange'' VNull) of
        None \<Rightarrow> cycle_payloads reg since_ts tokens w
      | Some adapter \<Rightarrow>
          (case adapter w (dict_get token ''chain'' (VText ''''))
                  (dict_get token ''token_address'' (VText ''''))
                  (dict_get token ''pool_address'' VNull) since_ts of
             (Inl exc, w') \<Rightarrow> cycle_payloads reg since_ts tokens w'
           | (Inr bars, w') \<Rightarrow>
               (case cycle_payloads reg since_ts tokens w' of
                  (ps, w'') \<Rightarrow> (market_payloads token bars @ ps, w''))))"

text \<open>
  A row of \<open>list_tokens\<close> that \<open>sync_registered_tokens\<close> can read: it has the keys
  \<open>exchange\<close> and \<open>symbol\<close>, as every row of a token table with these columns has.
\<close>

definition token_ok :: "pydict \<Rightarrow> bool" where
  "token_ok token = (''exchange'' \<in> set (keys token) \<and> ''symbol'' \<in> set (keys token))"

section \<open>Example stores\<close>

definition rules_db :: db where
  "rules_db =
     [''price_alert_rules'' \<mapsto>
        \<lparr>tcols = [''id'', ''symbol'', ''level''], tkey = [''id''],
         trows = [row_of [(''id'', VText ''r1''), (''symbol'', VText ''BTCUSDT''),
                          (''level'', VNum 100)]]\<rparr>]"

definition events_db :: db where
  "events_db =
     [''events'' \<mapsto>
        \<lparr>tcols = [''id'', ''symbol'', ''severity''], tkey = [''id''], trows = []\<rparr>]"

definition event_first :: pydict where
  "event_first = [(''id'', VText ''e1''), (''symbol'', VText ''BTCUSDT''), (''severity'', VText ''low'')]"

definition event_second :: pydict where
  "event_second = [(''id'', VText ''e1''), (''severity'', VText ''high'')]"

definition events_tab1 :: table where
  "events_tab1 =
     \<lparr>tcols = [''id'', ''symbol'', ''severity''], tkey = [''id''],
      trows = [row_of event_first]\<rparr>"

definition events_db1 :: db where
  "events_db1 = [''events'' \<mapsto> events_tab1]"

definition bar_cols :: "string list" where
  "bar_cols = [''source'', ''exchange'', ''chain'', ''symbol'', ''close_ts'',
               ''open'', ''close'', ''bid'']"

definition bar_a :: pydict where
  "bar_a = [(''source'', VText ''dex''), (''exchange'', VText ''pancake''),
            (''chain'', VText ''bsc''), (''symbol'', VText ''CAKE''), (''close_ts'', VNum 60),
            (''open'', VNum 1), (''close'', VNum 2), (''bid'', VNum 5)]"

definition bar_a_again :: pydict where
  "bar_a_again = [(''source'', VText ''dex''), (''exchange'', VText ''pancake''),
            (''chain'', VText ''bsc''), (''symbol'', VText ''CAKE''), (''close_ts'', VNum 60),
            (''close'', VNum 3), (''bid'', VNum 9)]"

definition bar_b :: pydict where
  "bar_b = [(''source'', VText ''dex''), (''exchange'', VText ''pancake''),
            (''chain'', VText ''bsc''), (''symbol'', VText ''CAKE''), (''close_ts'', VNum 120),
            (''open'', VNum 3), (''close'', VNum 4)]"

definition bars_tab0 :: table where
  "bars_tab0 = \<lparr>tcols = bar_cols, tkey = bar_identity, trows = []\<rparr>"

definition bars_tab1 :: table where
  "bars_tab1 = \<lparr>tcols = bar_cols, tkey = bar_identity, trows = [row_of bar_a]\<rparr>"

definition bars_db0 :: db where
  "bars_db0 = [''bars_1m'' \<mapsto> bars_tab0]"

definition bars_db1 :: db where
  "bars_db1 = [''bars_1m'' \<mapsto> bars_tab1]"

definition kv_db :: db where
  "kv_db =
     [''kv_state'' \<mapsto>
        \<lparr>tcols = [''key'', ''value'', ''updated_at''], tkey = [''key''],
         trows = [row_of [(''key'', VText ''cursor:ETHUSDT''), (''value'', VText ''1699999000''),
                          (''updated_at'', VNum 1699999001)]]\<rparr>]"

definition bars_db2 :: db where
  "bars_db2 =
     [''bars_1m'' \<mapsto>
        \<lparr>tcols = bar_cols, tkey = bar_identity, trows = [row_of bar_b, row_of bar_a]\<rparr>]"

text \<open>
  Four enabled markets and one disabled: AAA and CCC on an exchange whose adapter answers
  (two bars, three bars), BBB on one whose adapter raises, DDD on one without adapter.
\<close>

definition answering_adapter :: "unit adapter" where
  "answering_adapter w chain token_address pool_address since_ts =
     (if token_address = VText ''0xaaa'' then
        (Inr [[(''close_ts'', VNum 60), (''close'', VNum 1)],
              [(''close_ts'', VNum 120), (''close'', VNum 2)]], w)
      else
        (Inr [[(''close_ts'', VNum 60), (''close'', VNum 7)],
              [(''close_ts'', VNum 120), (''close'', VNum 8)],
              [(''close_ts'', VNum 180), (''close'', VNum 9)]], w))"

definition failing_adapter :: "unit adapter" where
  "failing_adapter w chain token_address pool_address since_ts =
     (Inl (TransportError ''timed out''), w)"

definition example_adapters :: "unit adapters" where
  "example_adapters = [''pancake'' \<mapsto> answering_adapter, ''flaky'' \<mapsto> failing_adapter]"

definition example_markets :: "row list" where
  "example_markets =
     [row_of [(''id'', VNum 1), (''symbol'', VText ''AAA''), (''exchange'', VText ''pancake''),
              (''chain'', VText ''bsc''), (''token_address'', VText ''0xaaa''), (''enabled'', VNum 1)],
      row_of [(''id'', VNum 2), (''symbol'', VText ''BBB''), (''exchange'', VText ''flaky''),
              (''chain'', VText ''bsc''), (''token_address'', VText ''0xbbb''), (''enabled'', VNum 1)],
      row_of [(''id'', VNum 3), (''symbol'', VText ''CCC''), (''exchange'', VText ''pancake''),
              (''chain'', VText ''bsc''), (''token_address'', VText ''0xccc''), (''enabled'', VNum 1)],
      row_of [(''id'', VNum 4), (''symbol'', VText ''DDD''), (''exchange'', VText ''nowhere''),
              (''chain'', VText ''bsc''), (''token_address'', VText ''0xddd''), (''enabled'', VNum 1)],
      row_of [(''id'', VNum 5), (''symbol'', VText ''EEE''), (''exchange'', VText ''pancake''),
              (''chain'', VText ''bsc''), (''token_address'', VText ''0xeee''), (''enabled'', VNum 0)]]"

definition sync_db :: db where
  "sync_db =
     [''token_registry'' \<mapsto>
        \<lparr>tcols = [''id'', ''symbol'', ''exchange'', ''chain'', ''token_address'', ''enabled''],
         tkey = [''id''], trows = example_markets\<rparr>,
      ''bars_1m'' \<mapsto>
        \<lparr>tcols = [''source'', ''exchange'', ''chain'', ''symbol'', ''close_ts'', ''close'',
                  ''base'', ''quote'', ''bid''],
         tkey = bar_identity, trows = []\<rparr>]"

definition example_tokens :: "pydict list" where
  "example_tokens =
     [[(''id'', VNum 1), (''symbol'', VText ''AAA''), (''exchange'', VText ''pancake''),
       (''chain'', VText ''bsc''), (''token_address'', VText ''0xaaa''), (''enabled'', VNum 1)],
      [(''id'', VNum 2), (''symbol'', VText ''BBB''), (''exchange'', VText ''flaky''),
       (''chain'', VText ''bsc''), (''token_address'', VText ''0xbbb''), (''enabled'', VNum 1)],
      [(''id'', VNum 3), (''symbol'', VText ''CCC''), (''exchange'', VText ''pancake''),
       (''chain'', VText ''bsc''), (''token_address'', VText ''0xccc''), (''enabled'', VNum 1)],
      [(''id'', VNum 4), (''symbol'', VText ''DDD''), (''exchange'', VText ''nowhere''),
       (''chain'', VText ''bsc''), (''token_address'', VText ''0xddd''), (''enabled'', VNum 1)]]"

definition example_payloads :: "pydict list" where
  "example_payloads =
     [[(''close_ts'', VNum 60), (''close'', VNum 1), (''source'', VText ''dex''),
       (''exchange'', VText ''pancake''), (''chain'', VText ''bsc''), (''symbol'', VText ''AAA''),
       (''base'', VText ''''), (''quote'', VText '''')],
      [(''close_ts'', VNum 120), (''close'', VNum 2), (''source'', VText ''dex''),
       (''exchange'', VText ''pancake''), (''chain'', VText ''bsc''), (''symbol'', VText ''AAA''),
       (''base'', VText ''''), (''quote'', VText '''')],
      [(''close_ts'', VNum 60), (''close'', VNum 7), (''source'', VText ''dex''),
       (''exchange'', VText ''pancake''), (''chain'', VText ''bsc''), (''symbol'', VText ''CCC''),
       (''base'', VText ''''), (''quote'', VText '''')],
      [(''close_ts'', VNum 120), (''close'', VNum 8), (''source'', VText ''dex''),
       (''exchange'', VText ''pancake''), (''chain'', VText ''bsc''), (''symbol'', VText ''CCC''),
       (''base'', VText ''''), (''quote'', VText '''')],
      [(''close_ts'', VNum 180), (''close'', VNum 9), (''source'', VText ''dex''),
       (''exchange'', VText ''pancake''), (''chain'', VText ''bsc''), (''symbol'', VText ''CCC''),
       (''base'', VText ''''), (''quote'', VText '''')]]"

text \<open>
  Bar A again with its bid under the key \<open>BID\<close>; and a bar of a market whose chain is
  \<open>None\<close>, twice.
\<close>

definition bar_a_upper :: pydict where
  "bar_a_upper = [(''source'', VText ''dex''), (''exchange'', VText ''pancake''),
            (''chain'', VText ''bsc''), (''symbol'', VText ''CAKE''), (''close_ts'', VNum 60),
            (''close'', VNum 3), (''BID'', VNum 9)]"

definition bar_nochain :: pydict where
  "bar_nochain = [(''source'', VText ''dex''), (''exchange'', VText ''pancake''),
            (''chain'', VNull), (''symbol'', VText ''CAKE''), (''close_ts'', VNum 60),
            (''close'', VNum 2), (''bid'', VNum 5)]"

definition bar_nochain_again :: pydict where
  "bar_nochain_again = [(''source'', VText ''dex''), (''exchange'', VText ''pancake''),
            (''chain'', VNull), (''symbol'', VText ''CAKE''), (''close_ts'', VNum 60),
            (''close'', VNum 3)]"

definition bars_db3 :: db where
  "bars_db3 =
     [''bars_1m'' \<mapsto>
        \<lparr>tcols = bar_cols, tkey = bar_identity, trows = [row_of bar_nochain]\<rparr>]"

section \<open>Facts about the store\<close>

lemma zip_keys_values: "zip (keys p) (map snd p) = p"
  by (simp add: keys_def zip_map_fst_snd)

lemma resolve_exact: "c \<in> set cols \<Longrightarrow> resolve cols c = Some c"
  by (simp add: resolve_def)

lemma resolve_in_cols: "resolve cols c = Some tc \<Longrightarrow> tc \<in> set cols"
  by (auto simp: resolve_def find_Some_iff split: if_splits)

lemma resolved_exact: "c \<in> set cols \<Longrightarrow> resolved cols c = c"
  by (simp add: resolved_def resolve_exact)

lemma resolve_all_resolved:
  "list_all (\<lambda>c. resolve cols c \<noteq> None) cs \<Longrightarrow> resolve_all cols cs = Some (map (resolved cols) cs)"
  by (induction cs) (auto simp: resolved_def)

lemma resolve_all_exact: "set cs \<subseteq> set cols \<Longrightarrow> resolve_all cols cs = Some cs"
  by (induction cs) (simp_all add: resolve_exact)

lemma resolve_all_None:
  "\<not> list_all (\<lambda>c. resolve cols c \<noteq> None) cs \<Longrightarrow> resolve_all cols cs = None"
  by (induction cs) (auto split: option.splits)

lemma bind_all_values: "bind_all (map (\<lambda>(col, v). PVal v) p) = Inr (map snd p)"
  by (induction p) (auto simp: bind_def)

lemma zip_resolved: "zip (map f (keys p)) (map snd p) = map (\<lambda>(k, v). (f k, v)) p"
  by (induction p) (auto simp: keys_def)

lemma new_row_exact: "set (keys p) \<subseteq> set cols \<Longrightarrow> new_row cols p = row_of p"
proof -
  assume "set (keys p) \<subseteq> set cols"
  then have "map (\<lambda>(k, v). (resolved cols k, v)) p = p"
    by (induction p) (auto simp: keys_def resolved_exact)
  then show ?thesis by (simp add: new_row_def)
qed

lemma accepts_exact: "set (keys p) \<subseteq> set cols \<Longrightarrow> accepts cols p"
  by (auto simp: accepts_def list_all_iff resolve_exact)

lemma conflicts_iff:
  "conflicts key r new \<longleftrightarrow> (\<forall>c\<in>set key. new c \<noteq> VNull) \<and> map r key = map new key"
  by (auto simp: conflicts_def list_all_iff)

lemma apply_on_conflict_built:
  "apply_on_conflict (if ucs \<noteq> [] then DoUpdateSet ucs else DoNothing) r new =
     (\<lambda>c. if c \<in> set ucs then new c else r c)"
  by (cases ucs) auto

lemma apply_on_conflict_key:
  "conflicts key r new \<Longrightarrow> map (apply_on_conflict act r new) key = map r key"
  by (cases act) (auto simp: conflicts_def list_all_iff)

lemma upsert_rows_at:
  "distinct (map (\<lambda>r. map r key) rs) \<Longrightarrow> i < length rs \<Longrightarrow> conflicts key (rs ! i) new \<Longrightarrow>
   upsert_rows key act new rs = rs[i := apply_on_conflict act (rs ! i) new]"
proof (induction rs arbitrary: i)
  case Nil
  then show ?case by simp
next
  case (Cons r rs)
  show ?case
  proof (cases i)
    case 0
    with Cons.prems show ?thesis by simp
  next
    case (Suc j)
    with Cons.prems have j: "j < length rs" and cj: "conflicts key (rs ! j) new"
      by simp_all
    have "map (rs ! j) key \<in> (\<lambda>r. map r key) ` set rs"
      using j by (intro image_eqI [where x = "rs ! j"]) simp_all
    then have "map r key \<noteq> map (rs ! j) key"
      using Cons.prems(1) by auto
    with cj have "\<not> conflicts key r new"
      by (auto simp: conflicts_iff)
    moreover have "upsert_rows key act new rs = rs[j := apply_on_conflict act (rs ! j) new]"
      using Cons.IH [OF _ j cj] Cons.prems(1) by simp
    ultimately show ?thesis using Suc by simp
  qed
qed

lemma upsert_rows_DoNothing:
  "\<exists>r\<in>set rs. conflicts key r new \<Longrightarrow> upsert_rows key DoNothing new rs = rs"
  by (induction rs) auto

lemma upsert_rows_no_conflict:
  "\<forall>r\<in>set rs. \<not> conflicts key r new \<Longrightarrow> upsert_rows key act new rs = rs @ [new]"
  by (induction rs) auto

lemma upsert_rows_idents:
  assumes "\<forall>c\<in>set key. new c \<noteq> VNull"
  shows "map (\<lambda>r. map r key) (upsert_rows key act new rs) =
           (if map new key \<in> set (map (\<lambda>r. map r key) rs) then map (\<lambda>r. map r key) rs
            else map (\<lambda>r. map r key) rs @ [map new key])"
proof (induction rs)
  case Nil
  then show ?case by simp
next
  case (Cons r rs)
  show ?case
  proof (cases "conflicts key r new")
    case True
    then have "map (apply_on_conflict act r new) key = map r key"
      by (rule apply_on_conflict_key)
    moreover from True have "map r key = map new key"
      by (simp add: conflicts_iff)
    ultimately show ?thesis using True by simp
  next
    case False
    with assms have "map r key \<noteq> map new key"
      by (simp add: conflicts_iff)
    with False Cons show ?thesis by auto
  qed
qed

lemma build_upsert_sql_Inr:
  "payload \<noteq> [] \<Longrightarrow>
   build_upsert_sql tbl payload cc skip =
     Inr (\<lparr>ins_table = tbl, ins_columns = keys payload, conflict_target = cc,
           on_conflict =
             (if filter (\<lambda>col. col \<notin> set cc \<and> col \<notin> set skip) (keys payload) \<noteq> []
              then DoUpdateSet (filter (\<lambda>col. col \<notin> set cc \<and> col \<notin> set skip) (keys payload))
              else DoNothing)\<rparr>,
          map (\<lambda>(col, v). PVal v) payload)"
  by (simp add: build_upsert_sql_def Let_def keys_def)

lemma resolve_on_conflict_built:
  assumes "list_all (\<lambda>c. resolve cols c \<noteq> None) ucs"
  shows "resolve_on_conflict cols (if ucs \<noteq> [] then DoUpdateSet ucs else DoNothing) =
           Some (if ucs \<noteq> [] then DoUpdateSet (map (resolved cols) ucs) else DoNothing)"
  using resolve_all_resolved [OF assms] by simp

lemma execute_accepted:
  assumes "d tbl = Some t" and "accepts (tcols t) payload" and "tkey t = cc"
    and "set cc \<subseteq> set (tcols t)" and "payload \<noteq> []"
  shows "(case build_upsert_sql tbl payload cc skip of
            Inl e \<Rightarrow> (Inl e, d)
          | Inr (sql, params) \<Rightarrow> execute d sql params) =
         (Inr (),
          d(tbl \<mapsto> t\<lparr>trows :=
              upsert_rows cc
                (if filter (\<lambda>col. col \<notin> set cc \<and> col \<notin> set skip) (keys payload) \<noteq> []
                 then DoUpdateSet
                        (map (resolved (tcols t))
                           (filter (\<lambda>col. col \<notin> set cc \<and> col \<notin> set skip) (keys payload)))
                 else DoNothing)
                (new_row (tcols t) payload) (trows t)\<rparr>))"
proof -
  let ?ucs = "filter (\<lambda>col. col \<notin> set cc \<and> col \<notin> set skip) (keys payload)"
  have all: "list_all (\<lambda>c. resolve (tcols t) c \<noteq> None) (keys payload)"
    using assms(2) by (simp add: accepts_def)
  then have some: "list_all (\<lambda>c. resolve (tcols t) c \<noteq> None) ?ucs"
    by (simp add: list_all_iff)
  have cols: "resolve_all (tcols t) (keys payload) = Some (map (resolved (tcols t)) (keys payload))"
    using all by (rule resolve_all_resolved)
  have target: "resolve_all (tcols t) cc = Some cc"
    using assms(4) by (rule resolve_all_exact)
  have act: "resolve_on_conflict (tcols t) (if ?ucs \<noteq> [] then DoUpdateSet ?ucs else DoNothing) =
               Some (if ?ucs \<noteq> [] then DoUpdateSet (map (resolved (tcols t)) ?ucs) else DoNothing)"
    using some by (rule resolve_on_conflict_built)
  have len: "length (map (\<lambda>(col, v). PVal v) payload) = length (map (resolved (tcols t)) (keys payload))"
    by (simp add: keys_def)
  have row: "row_of (zip (map (resolved (tcols t)) (keys payload)) (map snd payload)) =
               new_row (tcols t) payload"
    by (simp add: zip_resolved new_row_def)
  have prep: "prepare_upsert t
                \<lparr>ins_table = tbl, ins_columns = keys payload, conflict_target = cc,
                 on_conflict = (if ?ucs \<noteq> [] then DoUpdateSet ?ucs else DoNothing)\<rparr> =
              Inr (map (resolved (tcols t)) (keys payload),
                   if ?ucs \<noteq> [] then DoUpdateSet (map (resolved (tcols t)) ?ucs) else DoNothing)"
    using assms(3) by (simp add: prepare_upsert_def cols target act)
  show ?thesis
    unfolding build_upsert_sql_Inr [OF assms(5)]
    using assms(1,3) len
    by (simp add: execute_def prep bind_all_values row del: length_map)
qed

lemma execute_built:
  assumes "d tbl = Some t" and "set (keys payload) \<subseteq> set (tcols t)" and "tkey t = cc"
    and "set cc \<subseteq> set (tcols t)" and "payload \<noteq> []"
  shows "(case build_upsert_sql tbl payload cc skip of
            Inl e \<Rightarrow> (Inl e, d)
          | Inr (sql, params) \<Rightarrow> execute d sql params) =
         (Inr (),
          d(tbl \<mapsto> t\<lparr>trows :=
              upsert_rows cc
                (if filter (\<lambda>col. col \<notin> set cc \<and> col \<notin> set skip) (keys payload) \<noteq> []
                 then DoUpdateSet (filter (\<lambda>col. col \<notin> set cc \<and> col \<notin> set skip) (keys payload))
                 else DoNothing)
                (row_of payload) (trows t)\<rparr>))"
proof -
  let ?ucs = "filter (\<lambda>col. col \<notin> set cc \<and> col \<notin> set skip) (keys payload)"
  have "map (resolved (tcols t)) ?ucs = ?ucs"
    using assms(2) by (intro map_idI) (auto simp: resolved_exact)
  then show ?thesis
    using execute_accepted [where d = d and tbl = tbl and skip = skip,
        OF assms(1) accepts_exact [OF assms(2)] assms(3,4,5)]
    by (simp add: new_row_exact [OF assms(2)])
qed

lemma bind_all_error:
  "bind_all ps = Inl e \<Longrightarrow> e = OverflowError ''Python int too large to convert to SQLite INTEGER''"
proof (induction ps)
  case Nil
  then show ?case by simp
next
  case (Cons p ps)
  show ?case
  proof (cases "bind p")
    case (Inl e')
    with Cons.prems have "e = e'" by simp
    with Inl show ?thesis
      by (cases p) (auto simp: bind_def split: if_splits)
  next
    case (Inr v)
    with Cons.prems have "bind_all ps = Inl e"
      by (cases "bind_all ps") simp_all
    then show ?thesis by (rule Cons.IH)
  qed
qed

lemma limit_rows_error: "limit_rows v rs = Inl e \<Longrightarrow> e = IntegrityError ''datatype mismatch''"
  by (cases v) (auto simp: limit_rows_def split: if_splits)

lemma run_select_error:
  "run_select t cols conds ocols has_limit vals = Inl e \<Longrightarrow> e = IntegrityError ''datatype mismatch''"
  by (cases "limit_rows (last vals)
               (if ocols = [] then filter (\<lambda>r. list_all (\<lambda>(c, v). holds c v r) (zip conds vals)) (trows t)
                else order_by ocols
                       (filter (\<lambda>r. list_all (\<lambda>(c, v). holds c v r) (zip conds vals)) (trows t)))")
     (auto simp: run_select_def Let_def split: if_splits dest: limit_rows_error)

lemma query_error:
  assumes "query d q ps = Inl e"
  shows "\<not> is_ValueError e"
proof (cases "d (sel_from q)")
  case None
  with assms show ?thesis by (auto simp: query_def is_ValueError_def)
next
  case (Some t)
  show ?thesis
  proof (cases "prepare_select t q")
    case None
    with Some assms show ?thesis by (auto simp: query_def is_ValueError_def)
  next
    case plan: (Some pl)
    obtain cols conds ocols where pl: "pl = (cols, conds, ocols)"
      by (cases pl)
    show ?thesis
    proof (cases "length ps \<noteq> length (sel_where q) + (if sel_limit q then 1 else 0)")
      case True
      with Some plan pl assms show ?thesis by (auto simp: query_def is_ValueError_def)
    next
      case False
      show ?thesis
      proof (cases "bind_all ps")
        case (Inl e')
        with Some plan pl False assms have "e = e'" by (simp add: query_def)
        with Inl bind_all_error [of ps e'] show ?thesis by (simp add: is_ValueError_def)
      next
        case (Inr vals)
        with Some plan pl False assms
        have "run_select t cols conds ocols (sel_limit q) vals = Inl e"
          by (simp add: query_def)
        from run_select_error [OF this] show ?thesis by (simp add: is_ValueError_def)
      qed
    qed
  qed
qed

lemma query_not_ValueError: "\<not> raises_ValueError (query d q ps)"
  by (cases "query d q ps") (auto simp: raises_ValueError_def dest: query_error)

lemma prepare_upsert_error: "prepare_upsert t sql = Inl e \<Longrightarrow> \<not> is_ValueError e"
  by (auto simp: prepare_upsert_def is_ValueError_def split: option.splits if_splits)

lemma execute_cases:
  obtains (failed) e where "execute d sql ps = (Inl e, d)" and "\<not> is_ValueError e"
  | (succeeded) d' where "execute d sql ps = (Inr (), d')"
proof (cases "d (ins_table sql)")
  case None
  then have "execute d sql ps = (Inl (OperationalError (''no such table: '' @ ins_table sql)), d)"
    by (simp add: execute_def)
  then show ?thesis by (rule failed) (simp add: is_ValueError_def)
next
  case (Some t)
  show ?thesis
  proof (cases "prepare_upsert t sql")
    case (Inl e)
    with Some have "execute d sql ps = (Inl e, d)" by (simp add: execute_def)
    then show ?thesis using prepare_upsert_error [OF Inl] by (rule failed)
  next
    case (Inr pl)
    obtain columns act where pl: "pl = (columns, act)" by (cases pl)
    show ?thesis
    proof (cases "length ps \<noteq> length columns")
      case True
      with Some Inr pl
      have "execute d sql ps = (Inl (ProgrammingError ''Incorrect number of bindings supplied''), d)"
        by (simp add: execute_def)
      then show ?thesis by (rule failed) (simp add: is_ValueError_def)
    next
      case False
      show ?thesis
      proof (cases "bind_all ps")
        case (Inl e)
        with Some Inr pl False have "execute d sql ps = (Inl e, d)"
          by (simp add: execute_def)
        moreover have "\<not> is_ValueError e"
          using bind_all_error [OF Inl] by (simp add: is_ValueError_def)
        ultimately show ?thesis by (rule failed)
      next
        case vals: (Inr vals)
        with Some Inr pl False show ?thesis
          by (intro succeeded) (simp add: execute_def)
      qed
    qed
  qed
qed

lemma execute_not_ValueError: "\<not> raises_ValueError (fst (execute d sql ps))"
  by (rule execute_cases [of d sql ps]) (simp_all add: raises_ValueError_def)

lemma execute_failed_unchanged: "fst (execute d sql ps) \<noteq> Inr () \<Longrightarrow> snd (execute d sql ps) = d"
  by (rule execute_cases [of d sql ps]) simp_all

lemma by_id_only_id:
  assumes "d tbl = Some t" and "tkey t = [''id'']" and "''id'' \<in> set (tcols t)"
    and "v \<noteq> VNull" and "\<exists>r\<in>set (trows t). r ''id'' = v"
  shows "(case build_upsert_sql tbl [(''id'', v)] [''id''] [] of
            Inl e \<Rightarrow> (Inl e, d)
          | Inr (sql, params) \<Rightarrow> execute d sql params) = (Inr (), d)"
proof -
  have "\<exists>r\<in>set (trows t). conflicts [''id''] r (row_of [(''id'', v)])"
    using assms(4,5) by (auto simp: conflicts_def row_of_def)
  then have "upsert_rows [''id''] DoNothing (row_of [(''id'', v)]) (trows t) = trows t"
    by (rule upsert_rows_DoNothing)
  then show ?thesis
    using execute_built [where d = d and tbl = tbl and payload = "[(''id'', v)]" and skip = "[]",
        OF assms(1) _ assms(2)] assms(1,2,3)
    by (simp add: keys_def map_upd_triv)
qed

lemma upsert_existing_row:
  assumes "d tbl = Some t" and "tkey t = cc" and "set (keys p) \<subseteq> set (tcols t)" and "p \<noteq> []"
    and "distinct (map (\<lambda>r. map r cc) (trows t))" and "i < length (trows t)"
    and "conflicts cc (trows t ! i) (row_of p)" and "set cc \<subseteq> set (tcols t)"
  shows "(case build_upsert_sql tbl p cc skip of
            Inl e \<Rightarrow> (Inl e, d)
          | Inr (sql, params) \<Rightarrow> execute d sql params) =
         (Inr (),
          d(tbl \<mapsto> t\<lparr>trows := (trows t)
              [i := \<lambda>c. if c \<in> set (keys p) \<and> c \<notin> set cc \<and> c \<notin> set skip
                         then row_of p c else (trows t ! i) c]\<rparr>))"
proof -
  let ?ucs = "filter (\<lambda>col. col \<notin> set cc \<and> col \<notin> set skip) (keys p)"
  let ?act = "if ?ucs \<noteq> [] then DoUpdateSet ?ucs else DoNothing"
  have "upsert_rows cc ?act (row_of p) (trows t) =
          (trows t)[i := apply_on_conflict ?act (trows t ! i) (row_of p)]"
    using assms(5,6,7) by (rule upsert_rows_at)
  also have "apply_on_conflict ?act (trows t ! i) (row_of p) =
          (\<lambda>c. if c \<in> set (keys p) \<and> c \<notin> set cc \<and> c \<notin> set skip
                then row_of p c else (trows t ! i) c)"
    by (simp only: apply_on_conflict_built) auto
  finally show ?thesis
    using execute_built [where d = d and tbl = tbl and skip = skip, OF assms(1,3,2,8,4)]
    by simp
qed

lemma upsert_bar_built:
  "tbl \<in> ALLOWED_BAR_TABLES \<Longrightarrow> bar \<noteq> [] \<Longrightarrow>
   upsert_bar d tbl bar =
     (case build_upsert_sql tbl bar bar_identity [''bid''] of
        Inl e \<Rightarrow> (Inl e, d)
      | Inr (sql, params) \<Rightarrow> execute d sql params)"
  by (simp add: upsert_bar_def)

lemma upsert_bar_cases:
  "upsert_bar d tbl bar =
     (if tbl \<notin> ALLOWED_BAR_TABLES then (Inl (ValueError (''Unsupported bars table: '' @ tbl)), d)
      else if bar = [] then (Inl (ValueError ''bar payload is empty''), d)
      else execute d
             \<lparr>ins_table = tbl, ins_columns = keys bar, conflict_target = bar_identity,
              on_conflict =
                (if filter (\<lambda>col. col \<notin> set bar_identity \<and> col \<notin> set [''bid'']) (keys bar) \<noteq> []
                 then DoUpdateSet
                        (filter (\<lambda>col. col \<notin> set bar_identity \<and> col \<notin> set [''bid'']) (keys bar))
                 else DoNothing)\<rparr>
             (map (\<lambda>(col, v). PVal v) bar))"
  by (simp add: upsert_bar_def build_upsert_sql_Inr)

lemma allowed_tables_timeframes:
  "ALLOWED_BAR_TABLES = table_of_timeframe ` {''1m'', ''5m'', ''15m''}"
  by (auto simp: ALLOWED_BAR_TABLES_def table_of_timeframe_def)

lemma dict_item_present:
  "k \<in> set (keys d) \<Longrightarrow> dict_item d k = Inr (dict_get d k dflt)"
proof -
  assume "k \<in> set (keys d)"
  then have "map_of d k \<noteq> None"
    by (simp add: keys_def map_of_eq_None_iff)
  then obtain v where "map_of d k = Some v"
    by blast
  then show ?thesis
    by (simp add: dict_item_def dict_get_def)
qed

lemma keys_Cons: "keys ((k, v) # d) = k # keys d"
  by (simp add: keys_def)

lemma keys_Nil: "keys [] = []"
  by (simp add: keys_def)

lemma keys_update: "set (keys (AList.update k v d)) = insert k (set (keys d))"
  using dom_update [of k v d] by (simp add: keys_def)

lemma keys_dict_merge: "set (keys (dict_merge d items)) = set (keys d) \<union> set (keys items)"
proof -
  have "set (keys (fold (\<lambda>(k, v). AList.update k v) items d)) = set (keys d) \<union> set (keys items)"
  proof (induction items arbitrary: d)
    case Nil
    then show ?case by (simp add: keys_Nil)
  next
    case (Cons item items)
    obtain k v where item: "item = (k, v)" by (cases item)
    have "set (keys (fold (\<lambda>(k, v). AList.update k v) items (AList.update k v d))) =
            set (keys (AList.update k v d)) \<union> set (keys items)"
      by (rule Cons.IH)
    then have "set (keys (fold (\<lambda>(k, v). AList.update k v) items (AList.update k v d))) =
            insert k (set (keys d) \<union> set (keys items))"
      by (simp add: keys_update)
    then show ?case
      by (simp add: item keys_Cons)
  qed
  then show ?thesis by (simp add: dict_merge_def)
qed

lemma dict_merge_nonempty: "items \<noteq> [] \<Longrightarrow> dict_merge d items \<noteq> []"
proof
  assume "items \<noteq> []" and "dict_merge d items = []"
  then have "set (keys d) \<union> set (keys items) = {}"
    using keys_dict_merge [of d items] by (simp add: keys_Nil)
  then have "keys items = []" by simp
  with \<open>items \<noteq> []\<close> show False by (simp add: keys_def)
qed

lemma upsert_bars_append:
  "upsert_bars d tbl (xs @ ys) = upsert_bars (upsert_bars d tbl xs) tbl ys"
  by (induction xs arbitrary: d) simp_all

lemma upsert_bar_accepts:
  assumes "has_table d ''bars_1m'' bar_identity cols" and "set (keys p) \<subseteq> set cols" and "p \<noteq> []"
  shows "fst (upsert_bar d ''bars_1m'' p) = Inr () \<and>
         has_table (snd (upsert_bar d ''bars_1m'' p)) ''bars_1m'' bar_identity cols"
proof (cases "d ''bars_1m''")
  case None
  with assms(1) show ?thesis by (simp add: has_table_def)
next
  case (Some t)
  with assms(1) have t: "tkey t = bar_identity" "set bar_identity \<subseteq> set (tcols t)"
    "set cols \<subseteq> set (tcols t)"
    by (simp_all add: has_table_def)
  with assms(2) have sub: "set (keys p) \<subseteq> set (tcols t)" by blast
  have allowed: "''bars_1m'' \<in> ALLOWED_BAR_TABLES"
    by (simp add: ALLOWED_BAR_TABLES_def)
  have "upsert_bar d ''bars_1m'' p =
          (case build_upsert_sql ''bars_1m'' p bar_identity [''bid''] of
             Inl e \<Rightarrow> (Inl e, d)
           | Inr (sql, params) \<Rightarrow> execute d sql params)"
    using allowed assms(3) by (rule upsert_bar_built)
  also note execute_built [where d = d and tbl = "''bars_1m''" and skip = "[''bid'']",
      OF Some sub t(1,2) assms(3)]
  finally show ?thesis
    using t by (simp add: has_table_def)
qed

lemma market_payload_keys_nonempty:
  "dict_merge bar
     [(''source'', VText ''dex''), (''exchange'', ex), (''chain'', ch), (''symbol'', sy),
      (''base'', ba), (''quote'', qu)] \<noteq> []"
  by (rule dict_merge_nonempty) simp

lemma upsert_market_bars_run:
  assumes "token_ok token"
    and "has_table d ''bars_1m'' bar_identity cols"
    and "\<forall>p\<in>set (market_payloads token bars). set (keys p) \<subseteq> set cols"
  shows "upsert_market_bars d token bars n =
           (Inr (n + int (length bars)), upsert_bars d ''bars_1m'' (market_payloads token bars)) \<and>
         has_table (upsert_bars d ''bars_1m'' (market_payloads token bars)) ''bars_1m''
           bar_identity cols"
  using assms(2,3)
proof (induction bars arbitrary: d n)
  case Nil
  then show ?case by (simp add: market_payloads_def)
next
  case (Cons bar bars)
  let ?p = "dict_merge bar
              [(''source'', VText ''dex''),
               (''exchange'', dict_get token ''exchange'' VNull),
               (''chain'', dict_get token ''chain'' (VText '''')),
               (''symbol'', dict_get token ''symbol'' VNull),
               (''base'', dict_get token ''base'' (VText '''')),
               (''quote'', dict_get token ''quote'' (VText ''''))]"
  have ex: "dict_item token ''exchange'' = Inr (dict_get token ''exchange'' VNull)"
    and sy: "dict_item token ''symbol'' = Inr (dict_get token ''symbol'' VNull)"
    using assms(1) by (simp_all add: token_ok_def dict_item_present)
  have mp: "market_payloads token (bar # bars) = ?p # market_payloads token bars"
    by (simp add: market_payloads_def)
  have sub: "set (keys ?p) \<subseteq> set cols"
    using Cons.prems(2) by (simp add: mp)
  have ne: "?p \<noteq> []"
    by (rule market_payload_keys_nonempty)
  from upsert_bar_accepts [OF Cons.prems(1) sub ne]
  have ok: "fst (upsert_bar d ''bars_1m'' ?p) = Inr ()"
    and tab: "has_table (snd (upsert_bar d ''bars_1m'' ?p)) ''bars_1m'' bar_identity cols"
    by simp_all
  have rest: "\<forall>p\<in>set (market_payloads token bars). set (keys p) \<subseteq> set cols"
    using Cons.prems(2) by (simp add: mp)
  have step: "upsert_market_bars d token (bar # bars) n =
                upsert_market_bars (snd (upsert_bar d ''bars_1m'' ?p)) token bars (n + 1)"
    using ok by (cases "upsert_bar d ''bars_1m'' ?p") (simp add: ex sy)
  from Cons.IH [OF tab rest, of "n + 1"] show ?case
    unfolding step mp by (simp add: add.assoc)
qed

lemma sync_tokens_run:
  assumes "\<forall>token\<in>set tokens. token_ok token"
    and "has_table d ''bars_1m'' bar_identity cols"
    and "cycle_payloads reg since_ts tokens w = (ps, w')"
    and "\<forall>p\<in>set ps. set (keys p) \<subseteq> set cols"
  shows "sync_tokens reg since_ts tokens n d w =
           (Inr (n + int (length ps)), upsert_bars d ''bars_1m'' ps, w')"
  using assms
proof (induction tokens arbitrary: d w n ps)
  case Nil
  then show ?case by simp
next
  case (Cons token tokens)
  have tok: "token_ok token" and toks: "\<forall>token\<in>set tokens. token_ok token"
    using Cons.prems(1) by simp_all
  have ex: "dict_item token ''exchange'' = Inr (dict_get token ''exchange'' VNull)"
    and sy: "dict_item token ''symbol'' = Inr (dict_get token ''symbol'' VNull)"
    using tok by (simp_all add: token_ok_def dict_item_present)
  show ?case
  proof (cases "adapters_get reg (dict_get token ''exchange'' VNull)")
    case None
    with Cons.prems(3) have "cycle_payloads reg since_ts tokens w = (ps, w')"
      by simp
    from Cons.IH [OF toks Cons.prems(2) this Cons.prems(4)] None show ?thesis
      by (simp add: ex)
  next
    case (Some adapter)
    obtain res w1 where call:
      "adapter w (dict_get token ''chain'' (VText '''')) (dict_get token ''token_address'' (VText ''''))
         (dict_get token ''pool_address'' VNull) since_ts = (res, w1)"
      by (cases "adapter w (dict_get token ''chain'' (VText ''''))
                   (dict_get token ''token_address'' (VText ''''))
                   (dict_get token ''pool_address'' VNull) since_ts")
    show ?thesis
    proof (cases res)
      case (Inl exc)
      with Cons.prems(3) Some call have "cycle_payloads reg since_ts tokens w1 = (ps, w')"
        by simp
      from Cons.IH [OF toks Cons.prems(2) this Cons.prems(4)] Some call Inl show ?thesis
        by (simp add: ex sy)
    next
      case (Inr bars)
      obtain ps1 w2 where later: "cycle_payloads reg since_ts tokens w1 = (ps1, w2)"
        by (cases "cycle_payloads reg since_ts tokens w1")
      with Cons.prems(3) Some call Inr
      have ps: "ps = market_payloads token bars @ ps1" and w': "w' = w2"
        by simp_all
      have later': "cycle_payloads reg since_ts tokens w1 = (ps1, w')"
        using later w' by simp
      have here: "\<forall>p\<in>set (market_payloads token bars). set (keys p) \<subseteq> set cols"
        and there: "\<forall>p\<in>set ps1. set (keys p) \<subseteq> set cols"
        using Cons.prems(4) by (simp_all add: ps)
      from upsert_market_bars_run [OF tok Cons.prems(2) here, of n]
      have inner: "upsert_market_bars d token bars n =
                     (Inr (n + int (length bars)),
                      upsert_bars d ''bars_1m'' (market_payloads token bars))"
        and tab: "has_table (upsert_bars d ''bars_1m'' (market_payloads token bars)) ''bars_1m''
                    bar_identity cols"
        by simp_all
      have len: "length (market_payloads token bars) = length bars"
        by (simp add: market_payloads_def)
      from Cons.IH [OF toks tab later' there, of "n + int (length bars)"] Some call Inr show ?thesis
        by (simp add: ex inner ps w' upsert_bars_append len)
    qed
  qed
qed

lemma list_tokens_run:
  assumes "has_table d ''token_registry'' [''id''] [''enabled'', ''symbol'', ''exchange'']"
  shows "\<exists>tokens. list_tokens d (Some True) = Inr tokens \<and> (\<forall>token\<in>set tokens. token_ok token)"
proof (cases "d ''token_registry''")
  case None
  with assms show ?thesis by (simp add: has_table_def)
next
  case (Some t)
  with assms have cols: "''enabled'' \<in> set (tcols t)" "''symbol'' \<in> set (tcols t)"
    "''exchange'' \<in> set (tcols t)"
    by (simp_all add: has_table_def)
  have keys: "\<And>r. keys (dict_of_row (tcols t) r) = tcols t"
    by (simp add: keys_def dict_of_row_def comp_def)
  have prep: "prepare_select t
                \<lparr>sel_cols = None, sel_from = ''token_registry'', sel_where = [ColEq ''enabled''],
                 sel_order_by = [''symbol''], sel_limit = False\<rparr> =
              Some (tcols t, [ColEq ''enabled''], [''symbol''])"
    using cols by (simp add: prepare_select_def resolve_exact)
  from Some show ?thesis
    by (simp add: list_tokens_def query_def prep bind_def run_select_def token_ok_def keys cols)
qed

lemma kv_first_match:
  assumes "new ''key'' = VText k"
  shows "\<exists>r rest.
           filter (\<lambda>r. r ''key'' = VText k)
             (upsert_rows [''key''] (DoUpdateSet [''value'', ''updated_at'']) new rs) = r # rest \<and>
           r ''key'' = VText k \<and> r ''value'' = new ''value'' \<and>
           r ''updated_at'' = new ''updated_at''"
  using assms by (induction rs) (auto simp: conflicts_def)

lemma bind_PVal: "bind (PVal v) = Inr v"
  by (simp add: bind_def)

lemma bind_int64: "int64 i \<Longrightarrow> bind (PInt i) = Inr (VNum (of_int i))"
  by (simp add: bind_def int64_def)

lemma bind_not_int64:
  "\<not> int64 i \<Longrightarrow>
   bind (PInt i) = Inl (OverflowError ''Python int too large to convert to SQLite INTEGER'')"
  by (auto simp: bind_def int64_def)

lemma kv_prepare:
  assumes "tkey t = [''key'']"
    and "''key'' \<in> set (tcols t)" and "''value'' \<in> set (tcols t)" and "''updated_at'' \<in> set (tcols t)"
  shows "prepare_upsert t
           \<lparr>ins_table = ''kv_state'', ins_columns = [''key'', ''value'', ''updated_at''],
            conflict_target = [''key''],
            on_conflict = DoUpdateSet [''value'', ''updated_at'']\<rparr> =
         Inr ([''key'', ''value'', ''updated_at''], DoUpdateSet [''value'', ''updated_at''])"
  using assms by (simp add: prepare_upsert_def resolve_exact)

lemma set_kv_run:
  assumes "has_table d ''kv_state'' [''key''] [''key'', ''value'', ''updated_at'']"
  shows "\<exists>t. d ''kv_state'' = Some t \<and>
             set_kv d key value ts =
               (if int64 ts then
                  (Inr (),
                   d(''kv_state'' \<mapsto> t\<lparr>trows :=
                       upsert_rows [''key''] (DoUpdateSet [''value'', ''updated_at''])
                         (row_of [(''key'', VText key), (''value'', VText value),
                                  (''updated_at'', VNum (of_int ts))])
                         (trows t)\<rparr>))
                else
                  (Inl (OverflowError ''Python int too large to convert to SQLite INTEGER''), d))"
proof (cases "d ''kv_state''")
  case None
  with assms show ?thesis by (simp add: has_table_def)
next
  case (Some t)
  with assms have key: "tkey t = [''key'']"
    and cols: "''key'' \<in> set (tcols t)" "''value'' \<in> set (tcols t)" "''updated_at'' \<in> set (tcols t)"
    by (simp_all add: has_table_def)
  note prep = kv_prepare [OF key cols]
  show ?thesis
  proof (cases "int64 ts")
    case True
    with Some key show ?thesis
      by (simp add: set_kv_def execute_def prep bind_PVal bind_int64)
  next
    case False
    with Some show ?thesis
      by (simp add: set_kv_def execute_def prep bind_PVal bind_not_int64)
  qed
qed

lemma set_kv_then_get_kv:
  assumes "has_table d ''kv_state'' [''key''] [''key'', ''value'', ''updated_at'']"
    and "int64 ts"
  shows "fst (set_kv d key value ts) = Inr () \<and>
         has_table (snd (set_kv d key value ts)) ''kv_state'' [''key'']
           [''key'', ''value'', ''updated_at''] \<and>
         get_kv (snd (set_kv d key value ts)) key =
           Inr (Some [(''key'', VText key), (''value'', VText value),
                      (''updated_at'', VNum (of_int ts))])"
proof -
  let ?new = "row_of [(''key'', VText key), (''value'', VText value),
                      (''updated_at'', VNum (of_int ts))]"
  let ?rows = "\<lambda>t. upsert_rows [''key''] (DoUpdateSet [''value'', ''updated_at'']) ?new (trows t)"
  from set_kv_run [OF assms(1), of key "value" ts] assms(2) obtain t where
    t: "d ''kv_state'' = Some t"
    and run: "set_kv d key value ts = (Inr (), d(''kv_state'' \<mapsto> t\<lparr>trows := ?rows t\<rparr>))"
    by auto
  have cols: "''key'' \<in> set (tcols t)" "''value'' \<in> set (tcols t)" "''updated_at'' \<in> set (tcols t)"
    and key: "tkey t = [''key'']"
    using assms(1) t by (simp_all add: has_table_def)
  have new: "?new ''key'' = VText key" "?new ''value'' = VText value"
    "?new ''updated_at'' = VNum (of_int ts)"
    by (simp_all add: row_of_def)
  from kv_first_match [where new = ?new and k = key and rs = "trows t", OF new(1)]
  obtain r rest where
    flt: "filter (\<lambda>r. r ''key'' = VText key) (?rows t) = r # rest"
    and r: "r ''key'' = VText key" "r ''value'' = VText value"
      "r ''updated_at'' = VNum (of_int ts)"
    using new(2,3) by auto
  have prep: "prepare_select (t\<lparr>trows := ?rows t\<rparr>)
                \<lparr>sel_cols = Some [''key'', ''value'', ''updated_at''], sel_from = ''kv_state'',
                 sel_where = [ColEq ''key''], sel_order_by = [], sel_limit = False\<rparr> =
              Some ([''key'', ''value'', ''updated_at''], [ColEq ''key''], [])"
    using cols by (simp add: prepare_select_def resolve_exact)
  have pred: "(\<lambda>r. r ''key'' \<noteq> VNull \<and> r ''key'' = VText key) = (\<lambda>r. r ''key'' = VText key)"
    by auto
  have "get_kv (snd (set_kv d key value ts)) key =
          Inr (Some [(''key'', VText key), (''value'', VText value),
                     (''updated_at'', VNum (of_int ts))])"
    using r by (simp add: run get_kv_def query_def prep bind_def run_select_def pred flt dict_of_row_def)
  moreover have "has_table (snd (set_kv d key value ts)) ''kv_state'' [''key'']
           [''key'', ''value'', ''updated_at'']"
    using cols key by (simp add: run has_table_def)
  ultimately show ?thesis
    by (simp add: run)
qed

lemma val_le_refl: "val_le a a"
  by (cases a) simp_all

lemma val_le_total: "val_le a b \<or> val_le b a"
  by (cases a; cases b) auto

lemma val_le_trans: "val_le a b \<Longrightarrow> val_le b c \<Longrightarrow> val_le a c"
  by (cases a; cases b; cases c) auto

lemma order_le_single: "order_le [c] a b \<longleftrightarrow> val_le (a c) (b c)"
  by (simp add: val_le_refl)

lemma set_insort_row: "set (insort_row cs x ys) = insert x (set ys)"
  by (induction ys) auto

lemma length_insort_row: "length (insort_row cs x ys) = Suc (length ys)"
  by (induction ys) auto

lemma set_order_by: "set (order_by cs rs) = set rs"
  by (induction rs) (simp_all add: order_by_def set_insort_row)

lemma length_order_by: "length (order_by cs rs) = length rs"
  by (induction rs) (simp_all add: order_by_def length_insort_row)

lemma sorted_insort_row:
  "sorted_wrt (\<lambda>a b. val_le (a c) (b c)) ys \<Longrightarrow>
   sorted_wrt (\<lambda>a b. val_le (a c) (b c)) (insort_row [c] x ys)"
proof (induction ys)
  case Nil
  then show ?case by simp
next
  case (Cons y ys)
  show ?case
  proof (cases "val_le (x c) (y c)")
    case True
    then have "\<forall>z\<in>set ys. val_le (x c) (z c)"
      using Cons.prems by (auto intro: val_le_trans)
    with True Cons.prems show ?thesis
      by (simp add: val_le_refl)
  next
    case False
    then have "val_le (y c) (x c)"
      using val_le_total [of "x c" "y c"] by simp
    moreover have "x c \<noteq> y c"
      using False val_le_refl [of "x c"] by auto
    ultimately show ?thesis
      using False Cons by (auto simp: set_insort_row)
  qed
qed

lemma sorted_order_by: "sorted_wrt (\<lambda>a b. val_le (a c) (b c)) (order_by [c] rs)"
proof (induction rs)
  case Nil
  then show ?case by (simp add: order_by_def)
next
  case (Cons r rs)
  then have "sorted_wrt (\<lambda>a b. val_le (a c) (b c)) (insort_row [c] r (order_by [c] rs))"
    by (rule sorted_insort_row)
  then show ?case by (simp add: order_by_def)
qed

lemma map_of_dict_of_row:
  "map_of (dict_of_row cs r) c = (if c \<in> set cs then Some (r c) else None)"
  by (induction cs) (auto simp: dict_of_row_def)

lemma limit_rows_int:
  "limit_rows (VNum (of_int n)) rs = Inr (if n < 0 then rs else take (nat n) rs)"
  by (simp add: limit_rows_def)

lemma set_limited: "set (limited limit rs) \<subseteq> set rs"
  by (auto simp: limited_def split: option.splits dest: in_set_takeD)

lemma sorted_limited: "sorted_wrt P rs \<Longrightarrow> sorted_wrt P (limited limit rs)"
  by (auto simp: limited_def sorted_wrt_take split: option.splits)

lemma has_table_bars:
  "has_table d tbl bar_identity [] \<Longrightarrow>
   \<exists>t. d tbl = Some t \<and> tkey t = bar_identity \<and> ''symbol'' \<in> set (tcols t) \<and>
       ''close_ts'' \<in> set (tcols t)"
  by (cases "d tbl") (auto simp: has_table_def bar_identity_def)

lemma fetch_bars_prepare:
  assumes "''symbol'' \<in> set (tcols t)" and "''close_ts'' \<in> set (tcols t)"
  shows "prepare_select t
           \<lparr>sel_cols = None, sel_from = tbl, sel_where = [ColEq ''symbol''],
            sel_order_by = [''close_ts''], sel_limit = has_limit\<rparr> =
         Some (tcols t, [ColEq ''symbol''], [''close_ts''])"
    and "prepare_select t
           \<lparr>sel_cols = None, sel_from = tbl, sel_where = [ColEq ''symbol'', ColGe ''close_ts''],
            sel_order_by = [''close_ts''], sel_limit = has_limit\<rparr> =
         Some (tcols t, [ColEq ''symbol'', ColGe ''close_ts''], [''close_ts''])"
  using assms by (simp_all add: prepare_select_def resolve_exact)

lemma fetch_bars_run:
  assumes "tbl \<in> ALLOWED_BAR_TABLES" and "d tbl = Some t"
    and "''symbol'' \<in> set (tcols t)" and "''close_ts'' \<in> set (tcols t)"
    and "bindable since_ts" and "bindable limit"
  shows "fetch_bars d tbl symbol since_ts limit =
           Inr (map (dict_of_row (tcols t))
                  (limited limit
                     (order_by [''close_ts'']
                        (filter (\<lambda>r. r ''symbol'' = VText symbol \<and> since_ok since_ts r)
                           (trows t)))))"
proof -
  have p1: "(\<lambda>r. r ''symbol'' \<noteq> VNull \<and> r ''symbol'' = VText symbol) =
            (\<lambda>r. r ''symbol'' = VText symbol \<and> since_ok None r)"
    by (auto simp: since_ok_def)
  have p2: "\<And>s. (\<lambda>r. r ''symbol'' \<noteq> VNull \<and> r ''symbol'' = VText symbol \<and>
                 r ''close_ts'' \<noteq> VNull \<and> val_le (VNum (of_int s)) (r ''close_ts'')) =
            (\<lambda>r. r ''symbol'' = VText symbol \<and> since_ok (Some s) r)"
    by (auto simp: since_ok_def)
  note prep = fetch_bars_prepare [OF assms(3,4)]
  show ?thesis
  proof (cases since_ts)
    case None
    show ?thesis
    proof (cases limit)
      case None
      with \<open>since_ts = None\<close> assms(1,2) show ?thesis
        by (simp add: fetch_bars_def query_def prep bind_PVal run_select_def p1 limited_def)
    next
      case (Some n)
      with assms(6) have "int64 n" by (simp add: bindable_def)
      with Some \<open>since_ts = None\<close> assms(1,2) show ?thesis
        by (simp add: fetch_bars_def query_def prep bind_PVal bind_int64 run_select_def p1
            limited_def limit_rows_int)
    qed
  next
    case (Some s)
    with assms(5) have s: "int64 s" by (simp add: bindable_def)
    show ?thesis
    proof (cases limit)
      case None
      with \<open>since_ts = Some s\<close> s assms(1,2) show ?thesis
        by (simp add: fetch_bars_def query_def prep bind_PVal bind_int64 run_select_def p2
            limited_def)
    next
      case (Some n)
      with assms(6) have "int64 n" by (simp add: bindable_def)
      with Some \<open>since_ts = Some s\<close> s assms(1,2) show ?thesis
        by (simp add: fetch_bars_def query_def prep bind_PVal bind_int64 run_select_def p2
            limited_def limit_rows_int)
    qed
  qed
qed

lemma fetch_bars_overflow:
  assumes "tbl \<in> ALLOWED_BAR_TABLES" and "d tbl = Some t"
    and "''symbol'' \<in> set (tcols t)" and "''close_ts'' \<in> set (tcols t)"
    and "\<not> (bindable since_ts \<and> bindable limit)"
  shows "fetch_bars d tbl symbol since_ts limit =
           Inl (OverflowError ''Python int too large to convert to SQLite INTEGER'')"
proof -
  note prep = fetch_bars_prepare [OF assms(3,4)]
  show ?thesis
  proof (cases since_ts)
    case None
    with assms(5) obtain n where n: "limit = Some n" "\<not> int64 n"
      by (cases limit) (auto simp: bindable_def)
    with None assms(1,2) show ?thesis
      by (simp add: fetch_bars_def query_def prep bind_PVal bind_not_int64)
  next
    case (Some s)
    show ?thesis
    proof (cases "int64 s")
      case False
      with Some assms(1,2) show ?thesis
        by (cases limit) (simp_all add: fetch_bars_def query_def prep bind_PVal bind_not_int64)
    next
      case True
      with Some assms(5) obtain n where n: "limit = Some n" "\<not> int64 n"
        by (cases limit) (auto simp: bindable_def)
      with Some True assms(1,2) show ?thesis
        by (simp add: fetch_bars_def query_def prep bind_PVal bind_int64 bind_not_int64)
    qed
  qed
qed

section \<open>Claim C1: a second insert\_event with the same id\<close>

text \<open>
  C1, as amended. For an event payload that includes the key \<open>id\<close> (not \<open>None\<close>) and a
  stored event with that id, \<open>insert_event\<close> raises no error, but it is not a no-op: in the
  stored row every column other than \<open>id\<close> that the payload names is overwritten with the
  payload's value. The columns the payload does not name keep their values, and no other
  row changes. (The statement built is \<open>ON CONFLICT(id) DO UPDATE SET\<close> over those columns.)
\<close>

theorem insert_event_same_id_overwrites:
  assumes "d ''events'' = Some t" and "tkey t = [''id'']"
    and "set (keys event) \<subseteq> set (tcols t)"
    and "''id'' \<in> set (keys event)" and "row_of event ''id'' \<noteq> VNull"
    and "distinct (map (\<lambda>r. r ''id'') (trows t))"
    and "i < length (trows t)" and "(trows t ! i) ''id'' = row_of event ''id''"
  shows "insert_event d event =
           (Inr (),
            d(''events'' \<mapsto> t\<lparr>trows := (trows t)
                [i := \<lambda>c. if c \<in> set (keys event) \<and> c \<noteq> ''id''
                           then row_of event c else (trows t ! i) c]\<rparr>))"
proof -
  have ne: "event \<noteq> []"
    using assms(4) by (auto simp: keys_def)
  have dist: "distinct (map (\<lambda>r. map r [''id'']) (trows t))"
    using assms(6) by (simp add: distinct_map inj_on_def)
  have conf: "conflicts [''id''] (trows t ! i) (row_of event)"
    using assms(5,8) by (simp add: conflicts_def)
  show ?thesis
    using upsert_existing_row [where skip = "[]" and d = d and tbl = "''events''",
        OF assms(1,2,3) ne dist assms(7) conf] assms(3,4)
    by (auto simp: insert_event_def)
qed

text \<open>
  C1 as stated fails: after \<open>insert_event\<close> of \<open>{id: e1, symbol: BTCUSDT, severity: low}\<close>
  into an empty table, \<open>insert_event\<close> of \<open>{id: e1, severity: high}\<close> raises nothing and
  leaves the stored severity \<open>high\<close>.
\<close>

theorem insert_event_noop_counterexample:
  "fst (insert_event events_db event_first) = Inr () \<and>
   (rows_of (snd (insert_event events_db event_first)) ''events'' ! 0) ''severity'' = VText ''low'' \<and>
   fst (insert_event (snd (insert_event events_db event_first)) event_second) = Inr () \<and>
   (rows_of (snd (insert_event (snd (insert_event events_db event_first)) event_second))
      ''events'' ! 0) ''severity'' = VText ''high''"
  by (simp add: insert_event_def events_db_def event_first_def event_second_def keys_def
      build_upsert_sql_def Let_def execute_def prepare_upsert_def resolve_def bind_def
      rows_of_def row_of_def conflicts_def)

text \<open>The amended statement at that input: severity is overwritten, symbol is kept.\<close>

theorem insert_event_same_id_overwrites_witness:
  "fst (insert_event events_db1 event_second) = Inr () \<and>
   (rows_of (snd (insert_event events_db1 event_second)) ''events'' ! 0) ''id'' = VText ''e1'' \<and>
   (rows_of (snd (insert_event events_db1 event_second)) ''events'' ! 0) ''symbol'' = VText ''BTCUSDT'' \<and>
   (rows_of (snd (insert_event events_db1 event_second)) ''events'' ! 0) ''severity'' = VText ''high''"
proof -
  have h1: "events_db1 ''events'' = Some events_tab1"
    by (simp add: events_db1_def)
  have h2: "tkey events_tab1 = [''id'']"
    by (simp add: events_tab1_def)
  have h3: "set (keys event_second) \<subseteq> set (tcols events_tab1)"
    by (simp add: events_tab1_def event_second_def keys_def)
  have h4: "''id'' \<in> set (keys event_second)"
    by (simp add: event_second_def keys_def)
  have h5: "row_of event_second ''id'' \<noteq> VNull"
    by (simp add: event_second_def row_of_def)
  have h6: "distinct (map (\<lambda>r. r ''id'') (trows events_tab1))"
    by (simp add: events_tab1_def)
  have h7: "0 < length (trows events_tab1)"
    by (simp add: events_tab1_def)
  have h8: "(trows events_tab1 ! 0) ''id'' = row_of event_second ''id''"
    by (simp add: events_tab1_def event_first_def event_second_def row_of_def)
  show ?thesis
    unfolding insert_event_same_id_overwrites [where d = events_db1, OF h1 h2 h3 h4 h5 h6 h7 h8]
    by (simp add: rows_of_def events_tab1_def event_first_def event_second_def keys_def row_of_def)
qed

section \<open>Claim C3: the allowed timeframes\<close>

text \<open>
  C3. \<open>upsert_bar\<close> and \<open>fetch_bars\<close> accept exactly the timeframes 1m, 5m and 15m,
  each named by its table (\<open>bars_1m\<close>, \<open>bars_5m\<close>, \<open>bars_15m\<close>): for these three the
  validation passes (no ValueError is raised, for \<open>upsert_bar\<close> given a payload that is
  not empty), and every other value of the argument is rejected with a ValueError.
\<close>

theorem allowed_timeframes:
  "(raises_ValueError (fetch_bars d tbl symbol since_ts limit) \<longleftrightarrow>
      tbl \<notin> table_of_timeframe ` {''1m'', ''5m'', ''15m''}) \<and>
   (bar \<noteq> [] \<longrightarrow>
      (raises_ValueError (fst (upsert_bar d tbl bar)) \<longleftrightarrow>
         tbl \<notin> table_of_timeframe ` {''1m'', ''5m'', ''15m''}))"
proof -
  have "raises_ValueError (fetch_bars d tbl symbol since_ts limit) \<longleftrightarrow> tbl \<notin> ALLOWED_BAR_TABLES"
    using query_not_ValueError
    by (auto simp: fetch_bars_def Let_def raises_ValueError_def is_ValueError_def
        split: option.splits)
  moreover have "bar \<noteq> [] \<longrightarrow>
      (raises_ValueError (fst (upsert_bar d tbl bar)) \<longleftrightarrow> tbl \<notin> ALLOWED_BAR_TABLES)"
    using execute_not_ValueError
    by (simp add: upsert_bar_cases raises_ValueError_def is_ValueError_def)
  ultimately show ?thesis
    by (simp only: allowed_tables_timeframes)
qed

text \<open>The three tables pass; \<open>bars_1h\<close> and a bare \<open>1m\<close> are rejected.\<close>

theorem allowed_timeframes_witness:
  "\<not> raises_ValueError (fetch_bars bars_db1 ''bars_1m'' ''CAKE'' None None) \<and>
   \<not> raises_ValueError (fetch_bars bars_db1 ''bars_5m'' ''CAKE'' None None) \<and>
   \<not> raises_ValueError (fetch_bars bars_db1 ''bars_15m'' ''CAKE'' None None) \<and>
   raises_ValueError (fetch_bars bars_db1 ''bars_1h'' ''CAKE'' None None) \<and>
   raises_ValueError (fetch_bars bars_db1 ''1m'' ''CAKE'' None None) \<and>
   \<not> raises_ValueError (fst (upsert_bar bars_db1 ''bars_15m'' bar_b)) \<and>
   raises_ValueError (fst (upsert_bar bars_db1 ''bars_1h'' bar_b))"
  using allowed_timeframes [of bars_db1 "''bars_1m''" "''CAKE''" None None bar_b]
    allowed_timeframes [of bars_db1 "''bars_5m''" "''CAKE''" None None bar_b]
    allowed_timeframes [of bars_db1 "''bars_15m''" "''CAKE''" None None bar_b]
    allowed_timeframes [of bars_db1 "''bars_1h''" "''CAKE''" None None bar_b]
    allowed_timeframes [of bars_db1 "''1m''" "''CAKE''" None None bar_b]
  by (simp add: table_of_timeframe_def bar_b_def)

section \<open>Claim C4: the read operations the dashboard uses\<close>

text \<open>
  C4 says that the storage module has a latest-bar-by-symbol lookup and an
  undelivered-event listing, as the UI uses them. The module binds neither
  \<open>fetch_latest_bar\<close> nor \<open>fetch_undelivered_events\<close> (and \<open>__all__\<close> lists neither), so
  \<open>_dashboard\<close> ends with an AttributeError: at the first configured symbol, or at the
  event listing when no symbol is configured.
\<close>

theorem dashboard_raises_AttributeError:
  "dashboard [''BTCUSDT''] =
     Inl (AttributeError
       (''module 'storage.sqlite_manager' has no attribute 'fetch_latest_bar'' @ [CHR 0x27])) \<and>
   dashboard [] =
     Inl (AttributeError
       (''module 'storage.sqlite_manager' has no attribute 'fetch_undelivered_events'' @ [CHR 0x27])) \<and>
   ''fetch_latest_bar'' \<notin> set sqlite_manager_names \<and>
   ''fetch_undelivered_events'' \<notin> set sqlite_manager_names \<and>
   set sqlite_manager_all \<subseteq> set sqlite_manager_names"
  by (simp add: dashboard_def sqlite_manager_getattr_def sqlite_manager_names_def
      sqlite_manager_all_def)

section \<open>Claim C6: one market's failure does not end the cycle\<close>

text \<open>
  C6. Let the token table have the columns the cycle reads. Whatever the adapters do for
  the enabled markets (answer, raise, or be missing for the market's exchange),
  \<open>sync_registered_tokens\<close> raises nothing of its own: provided the bar table takes the
  columns of the bars to write, it returns the number of bars written in all markets, and
  the store it leaves is the one reached by upserting, in listing order, the tagged bars
  of every market whose adapter exists and answered; the markets whose adapter raised or
  is missing contribute nothing and stop nothing.
\<close>

theorem sync_registered_tokens_isolates_failures:
  assumes "has_table d ''token_registry'' [''id''] [''enabled'', ''symbol'', ''exchange'']"
  shows "\<exists>tokens payloads w'.
           list_tokens d (Some True) = Inr tokens \<and>
           cycle_payloads reg since_ts tokens w = (payloads, w') \<and>
           (has_table d ''bars_1m'' bar_identity (concat (map keys payloads)) \<longrightarrow>
              sync_registered_tokens reg since_ts d w =
                (Inr (int (length payloads)), upsert_bars d ''bars_1m'' payloads, w'))"
proof -
  from list_tokens_run [OF assms] obtain tokens where
    lst: "list_tokens d (Some True) = Inr tokens" and ok: "\<forall>token\<in>set tokens. token_ok token"
    by blast
  obtain payloads w' where cyc: "cycle_payloads reg since_ts tokens w = (payloads, w')"
    by (cases "cycle_payloads reg since_ts tokens w")
  have "sync_registered_tokens reg since_ts d w =
          (Inr (int (length payloads)), upsert_bars d ''bars_1m'' payloads, w')"
    if tab: "has_table d ''bars_1m'' bar_identity (concat (map keys payloads))"
  proof -
    have "\<forall>p\<in>set payloads. set (keys p) \<subseteq> set (concat (map keys payloads))"
      by auto
    from sync_tokens_run [OF ok tab cyc this, of 0] show ?thesis
      by (simp add: sync_registered_tokens_def lst)
  qed
  with lst cyc show ?thesis
    by blast
qed

text \<open>
  The example of the specification: the adapter of the second market raises, the first and
  third give 2 and 3 bars (a fourth has no adapter); the cycle returns 5 and has upserted
  the five bars.
\<close>

theorem sync_registered_tokens_isolates_failures_witness:
  "fst (sync_registered_tokens example_adapters None sync_db ()) = Inr 5 \<and>
   fst (snd (sync_registered_tokens example_adapters None sync_db ())) =
     upsert_bars sync_db ''bars_1m'' example_payloads"
proof -
  have h: "has_table sync_db ''token_registry'' [''id''] [''enabled'', ''symbol'', ''exchange'']"
    by (simp add: has_table_def sync_db_def)
  from sync_registered_tokens_isolates_failures [OF h, of example_adapters None "()"]
  obtain tokens payloads w' where
    lst: "list_tokens sync_db (Some True) = Inr tokens"
    and cyc: "cycle_payloads example_adapters None tokens () = (payloads, w')"
    and run: "has_table sync_db ''bars_1m'' bar_identity (concat (map keys payloads)) \<longrightarrow>
              sync_registered_tokens example_adapters None sync_db () =
                (Inr (int (length payloads)), upsert_bars sync_db ''bars_1m'' payloads, w')"
    by blast
  have "list_tokens sync_db (Some True) = Inr example_tokens"
    by (simp add: list_tokens_def query_def prepare_select_def resolve_def bind_def
        run_select_def sync_db_def example_markets_def order_by_def
        dict_of_row_def row_of_def example_tokens_def)
  with lst have tokens: "tokens = example_tokens"
    by simp
  have "cycle_payloads example_adapters None example_tokens () = (example_payloads, ())"
    by (simp add: example_tokens_def example_adapters_def adapters_get_def dict_get_def
        answering_adapter_def failing_adapter_def market_payloads_def dict_merge_def
        example_payloads_def)
  with cyc tokens have payloads: "payloads = example_payloads"
    by simp
  have "has_table sync_db ''bars_1m'' bar_identity (concat (map keys example_payloads))"
    by (simp add: has_table_def sync_db_def bar_identity_def example_payloads_def keys_def)
  with run payloads
  have "sync_registered_tokens example_adapters None sync_db () =
          (Inr (int (length example_payloads)), upsert_bars sync_db ''bars_1m'' example_payloads, w')"
    by simp
  moreover have "length example_payloads = 5"
    by (simp add: example_payloads_def)
  ultimately show ?thesis
    by simp
qed

section \<open>Claim C7: what fetch\_bars returns\<close>

text \<open>
  C7, as amended. For a supported table, any symbol, and optional \<open>since_ts\<close> and
  \<open>limit\<close> that SQLite can hold (signed 64-bit integers), \<open>fetch_bars\<close> returns bars of
  that symbol only, ordered non-decreasing in \<open>close_ts\<close>; when \<open>since_ts\<close> is given,
  every returned bar has \<open>close_ts >= since_ts\<close>; when \<open>limit\<close> is given and is not
  negative, at most \<open>limit\<close> bars are returned. A negative \<open>limit\<close> bounds nothing: the
  result is the one without limit. With \<open>since_ts\<close> or \<open>limit\<close> outside that range the
  call raises OverflowError.
\<close>

theorem fetch_bars_filtered_ordered_limited:
  assumes "tbl \<in> ALLOWED_BAR_TABLES" and "has_table d tbl bar_identity []"
  shows "(bindable since_ts \<and> bindable limit \<longrightarrow>
          (\<exists>bars.
             fetch_bars d tbl symbol since_ts limit = Inr bars \<and>
             (\<forall>b\<in>set bars. dict_item b ''symbol'' = Inr (VText symbol)) \<and>
             sorted_wrt (\<lambda>a b. val_le (dict_get a ''close_ts'' VNull) (dict_get b ''close_ts'' VNull))
               bars \<and>
             (\<forall>s. since_ts = Some s \<longrightarrow>
                (\<forall>b\<in>set bars. dict_get b ''close_ts'' VNull \<noteq> VNull \<and>
                   val_le (VNum (of_int s)) (dict_get b ''close_ts'' VNull))) \<and>
             (\<forall>n. limit = Some n \<and> 0 \<le> n \<longrightarrow> length bars \<le> nat n) \<and>
             (\<forall>n. limit = Some n \<and> n < 0 \<longrightarrow>
                fetch_bars d tbl symbol since_ts None = Inr bars))) \<and>
         (\<not> (bindable since_ts \<and> bindable limit) \<longrightarrow>
            fetch_bars d tbl symbol since_ts limit =
              Inl (OverflowError ''Python int too large to convert to SQLite INTEGER''))"
proof -
  from has_table_bars [OF assms(2)] obtain t where
    t: "d tbl = Some t" and sym: "''symbol'' \<in> set (tcols t)" and cts: "''close_ts'' \<in> set (tcols t)"
    by blast
  let ?sel = "filter (\<lambda>r. r ''symbol'' = VText symbol \<and> since_ok since_ts r) (trows t)"
  let ?rs = "limited limit (order_by [''close_ts''] ?sel)"
  let ?bars = "map (dict_of_row (tcols t)) ?rs"
  have over: "\<not> (bindable since_ts \<and> bindable limit) \<longrightarrow>
            fetch_bars d tbl symbol since_ts limit =
              Inl (OverflowError ''Python int too large to convert to SQLite INTEGER'')"
    using fetch_bars_overflow [where d = d and tbl = tbl, OF assms(1) t sym cts] by blast
  have good: "\<exists>bars.
             fetch_bars d tbl symbol since_ts limit = Inr bars \<and>
             (\<forall>b\<in>set bars. dict_item b ''symbol'' = Inr (VText symbol)) \<and>
             sorted_wrt (\<lambda>a b. val_le (dict_get a ''close_ts'' VNull) (dict_get b ''close_ts'' VNull))
               bars \<and>
             (\<forall>s. since_ts = Some s \<longrightarrow>
                (\<forall>b\<in>set bars. dict_get b ''close_ts'' VNull \<noteq> VNull \<and>
                   val_le (VNum (of_int s)) (dict_get b ''close_ts'' VNull))) \<and>
             (\<forall>n. limit = Some n \<and> 0 \<le> n \<longrightarrow> length bars \<le> nat n) \<and>
             (\<forall>n. limit = Some n \<and> n < 0 \<longrightarrow>
                fetch_bars d tbl symbol since_ts None = Inr bars)"
    if ok: "bindable since_ts" "bindable limit"
  proof -
    have none: "bindable None" by (simp add: bindable_def)
    note run = fetch_bars_run [where d = d and tbl = tbl, OF assms(1) t sym cts ok]
    have sub: "set ?rs \<subseteq> set ?sel"
      using set_limited [of limit "order_by [''close_ts''] ?sel"] by (simp add: set_order_by)
    have get: "\<And>r. dict_get (dict_of_row (tcols t) r) ''close_ts'' VNull = r ''close_ts''"
      using cts by (simp add: dict_get_def map_of_dict_of_row)
    have "fetch_bars d tbl symbol since_ts limit = Inr ?bars"
      by (rule run)
    moreover have "\<forall>b\<in>set ?bars. dict_item b ''symbol'' = Inr (VText symbol)"
      using sub sym by (auto simp: dict_item_def map_of_dict_of_row)
    moreover have "sorted_wrt (\<lambda>a b. val_le (dict_get a ''close_ts'' VNull)
                                      (dict_get b ''close_ts'' VNull)) ?bars"
      using sorted_limited [where limit = limit, OF sorted_order_by [of "''close_ts''" ?sel]]
      by (simp add: sorted_wrt_map get)
    moreover have "\<forall>s. since_ts = Some s \<longrightarrow>
                (\<forall>b\<in>set ?bars. dict_get b ''close_ts'' VNull \<noteq> VNull \<and>
                   val_le (VNum (of_int s)) (dict_get b ''close_ts'' VNull))"
      using sub by (auto simp: get since_ok_def)
    moreover have "\<forall>n. limit = Some n \<and> 0 \<le> n \<longrightarrow> length ?bars \<le> nat n"
      by (simp add: limited_def)
    moreover have "\<forall>n. limit = Some n \<and> n < 0 \<longrightarrow>
                     fetch_bars d tbl symbol since_ts None = Inr ?bars"
      using fetch_bars_run [where d = d and tbl = tbl and limit = None,
          OF assms(1) t sym cts ok(1) none]
      by (simp add: limited_def)
    ultimately show ?thesis
      by blast
  qed
  from good over show ?thesis
    by blast
qed

text \<open>
  C7 as stated fails for a negative limit: with two bars of the symbol stored,
  \<open>fetch_bars\<close> with \<open>limit = -1\<close> returns both, which is more than \<open>limit\<close> rows.
\<close>

theorem fetch_bars_negative_limit_counterexample:
  "fetch_bars bars_db2 ''bars_1m'' ''CAKE'' None (Some (- 1)) =
     Inr [[(''source'', VText ''dex''), (''exchange'', VText ''pancake''),
           (''chain'', VText ''bsc''), (''symbol'', VText ''CAKE''), (''close_ts'', VNum 60),
           (''open'', VNum 1), (''close'', VNum 2), (''bid'', VNum 5)],
          [(''source'', VText ''dex''), (''exchange'', VText ''pancake''),
           (''chain'', VText ''bsc''), (''symbol'', VText ''CAKE''), (''close_ts'', VNum 120),
           (''open'', VNum 3), (''close'', VNum 4), (''bid'', VNull)]]"
  by (simp add: fetch_bars_def ALLOWED_BAR_TABLES_def bars_db2_def query_def prepare_select_def
      resolve_def bind_def run_select_def bar_cols_def
      order_by_def limit_rows_def dict_of_row_def row_of_def bar_a_def bar_b_def)

text \<open>
  With \<open>since_ts = 0\<close> and \<open>limit = 1\<close> the same store gives the earliest bar only; with
  a limit below the range the call raises.
\<close>

theorem fetch_bars_filtered_ordered_limited_witness:
  "fetch_bars bars_db2 ''bars_1m'' ''CAKE'' (Some 0) (Some 1) =
     Inr [[(''source'', VText ''dex''), (''exchange'', VText ''pancake''),
           (''chain'', VText ''bsc''), (''symbol'', VText ''CAKE''), (''close_ts'', VNum 60),
           (''open'', VNum 1), (''close'', VNum 2), (''bid'', VNum 5)]] \<and>
   (\<exists>bars. fetch_bars bars_db2 ''bars_1m'' ''CAKE'' (Some 0) (Some 1) = Inr bars \<and>
      length bars \<le> 1 \<and>
      (\<forall>b\<in>set bars. dict_item b ''symbol'' = Inr (VText ''CAKE'') \<and>
         val_le (VNum 0) (dict_get b ''close_ts'' VNull))) \<and>
   fetch_bars bars_db2 ''bars_1m'' ''CAKE'' (Some 0) (Some (- (2 ^ 63) - 1)) =
     Inl (OverflowError ''Python int too large to convert to SQLite INTEGER'')"
proof -
  have h1: "''bars_1m'' \<in> ALLOWED_BAR_TABLES"
    by (simp add: ALLOWED_BAR_TABLES_def)
  have h2: "has_table bars_db2 ''bars_1m'' bar_identity []"
    by (simp add: has_table_def bars_db2_def bar_identity_def bar_cols_def)
  have r: "bindable (Some 0)" "bindable (Some 1)" "\<not> bindable (Some (- (2 ^ 63) - 1))"
    by (simp_all add: bindable_def int64_def)
  have "fetch_bars bars_db2 ''bars_1m'' ''CAKE'' (Some 0) (Some 1) =
     Inr [[(''source'', VText ''dex''), (''exchange'', VText ''pancake''),
           (''chain'', VText ''bsc''), (''symbol'', VText ''CAKE''), (''close_ts'', VNum 60),
           (''open'', VNum 1), (''close'', VNum 2), (''bid'', VNum 5)]]"
    by (simp add: fetch_bars_def ALLOWED_BAR_TABLES_def bars_db2_def query_def prepare_select_def
        resolve_def bind_def run_select_def bar_cols_def
        order_by_def limit_rows_def dict_of_row_def row_of_def bar_a_def bar_b_def)
  moreover have "\<exists>bars. fetch_bars bars_db2 ''bars_1m'' ''CAKE'' (Some 0) (Some 1) = Inr bars \<and>
      length bars \<le> 1 \<and>
      (\<forall>b\<in>set bars. dict_item b ''symbol'' = Inr (VText ''CAKE'') \<and>
         val_le (VNum 0) (dict_get b ''close_ts'' VNull))"
    using fetch_bars_filtered_ordered_limited [OF h1 h2, of "Some 0" "Some 1" "''CAKE''"] r(1,2)
    by fastforce
  moreover have "fetch_bars bars_db2 ''bars_1m'' ''CAKE'' (Some 0) (Some (- (2 ^ 63) - 1)) =
     Inl (OverflowError ''Python int too large to convert to SQLite INTEGER'')"
    using fetch_bars_filtered_ordered_limited [OF h1 h2, of "Some 0" "Some (- (2 ^ 63) - 1)" "''CAKE''"]
      r(3)
    by simp
  ultimately show ?thesis
    by blast
qed

section \<open>Claim C8: validation errors of upsert\_bar\<close>

text \<open>
  C8. \<open>upsert_bar\<close> raises a ValueError if and only if the table of the timeframe is not
  supported or the payload is empty, and in these cases the store is returned unchanged;
  so is it after any other failure of the call.
\<close>

theorem upsert_bar_validation:
  "(raises_ValueError (fst (upsert_bar d tbl bar)) \<longleftrightarrow> tbl \<notin> ALLOWED_BAR_TABLES \<or> bar = []) \<and>
   (tbl \<notin> ALLOWED_BAR_TABLES \<or> bar = [] \<longrightarrow> snd (upsert_bar d tbl bar) = d) \<and>
   (fst (upsert_bar d tbl bar) \<noteq> Inr () \<longrightarrow> snd (upsert_bar d tbl bar) = d)"
  using execute_not_ValueError execute_failed_unchanged
  by (simp add: upsert_bar_cases raises_ValueError_def is_ValueError_def)

text \<open>An unsupported table and an empty payload raise and write nothing; a bar does not raise.\<close>

theorem upsert_bar_validation_witness:
  "raises_ValueError (fst (upsert_bar bars_db1 ''bars_1h'' bar_b)) \<and>
   snd (upsert_bar bars_db1 ''bars_1h'' bar_b) = bars_db1 \<and>
   raises_ValueError (fst (upsert_bar bars_db1 ''bars_1m'' [])) \<and>
   snd (upsert_bar bars_db1 ''bars_1m'' []) = bars_db1 \<and>
   \<not> raises_ValueError (fst (upsert_bar bars_db1 ''bars_1m'' bar_b))"
  using upsert_bar_validation [of bars_db1 "''bars_1h''" bar_b]
    upsert_bar_validation [of bars_db1 "''bars_1m''" "[]"]
    upsert_bar_validation [of bars_db1 "''bars_1m''" bar_b]
  by (simp add: ALLOWED_BAR_TABLES_def bar_b_def)

section \<open>Claim C9: the watermark round trip\<close>

text \<open>
  C9, as amended. For every key and value, and every timestamp that SQLite can hold
  (a signed 64-bit integer), \<open>set_kv(key, value, t)\<close> succeeds and \<open>get_kv(key)\<close> then
  returns the record with that value and timestamp; a later \<open>set_kv\<close> for the same key,
  with such a timestamp, overwrites both value and updated\_at. With a timestamp outside
  that range \<open>set_kv\<close> raises OverflowError and leaves the store as it was.
\<close>

theorem set_kv_get_kv_last_write_wins:
  assumes "has_table d ''kv_state'' [''key''] [''key'', ''value'', ''updated_at'']"
  shows "(int64 ts \<longrightarrow>
            fst (set_kv d key value ts) = Inr () \<and>
            get_kv (snd (set_kv d key value ts)) key =
              Inr (Some [(''key'', VText key), (''value'', VText value),
                         (''updated_at'', VNum (of_int ts))]) \<and>
            (int64 ts' \<longrightarrow>
               fst (set_kv (snd (set_kv d key value ts)) key value' ts') = Inr () \<and>
               get_kv (snd (set_kv (snd (set_kv d key value ts)) key value' ts')) key =
                 Inr (Some [(''key'', VText key), (''value'', VText value'),
                            (''updated_at'', VNum (of_int ts'))]))) \<and>
         (\<not> int64 ts \<longrightarrow>
            set_kv d key value ts =
              (Inl (OverflowError ''Python int too large to convert to SQLite INTEGER''), d))"
proof (cases "int64 ts")
  case True
  note first = set_kv_then_get_kv [OF assms True, of key "value"]
  then have tab: "has_table (snd (set_kv d key value ts)) ''kv_state'' [''key'']
           [''key'', ''value'', ''updated_at'']"
    by simp
  have "int64 ts' \<longrightarrow>
               fst (set_kv (snd (set_kv d key value ts)) key value' ts') = Inr () \<and>
               get_kv (snd (set_kv (snd (set_kv d key value ts)) key value' ts')) key =
                 Inr (Some [(''key'', VText key), (''value'', VText value'),
                            (''updated_at'', VNum (of_int ts'))])"
    using set_kv_then_get_kv [OF tab, of ts' key value'] by simp
  with first True show ?thesis by simp
next
  case False
  from set_kv_run [OF assms, of key "value" ts] False show ?thesis
    by auto
qed

text \<open>
  C9 as stated fails for the timestamp \<open>2^63\<close>: \<open>set_kv\<close> raises, and \<open>get_kv\<close> still
  returns the value written before, not the one just given.
\<close>

theorem set_kv_out_of_range_counterexample:
  "set_kv kv_db ''cursor:ETHUSDT'' ''1700000000'' (2 ^ 63) =
     (Inl (OverflowError ''Python int too large to convert to SQLite INTEGER''), kv_db) \<and>
   get_kv (snd (set_kv kv_db ''cursor:ETHUSDT'' ''1700000000'' (2 ^ 63))) ''cursor:ETHUSDT'' =
     Inr (Some [(''key'', VText ''cursor:ETHUSDT''), (''value'', VText ''1699999000''),
                (''updated_at'', VNum 1699999001)])"
  by (simp add: set_kv_def get_kv_def execute_def query_def prepare_upsert_def prepare_select_def
      run_select_def resolve_def bind_def kv_db_def dict_of_row_def row_of_def)

text \<open>
  The cursor of the specification, written twice beside another key; and a timestamp below
  the range.
\<close>

theorem set_kv_get_kv_last_write_wins_witness:
  "get_kv (snd (set_kv kv_db ''cursor:BTCUSDT'' ''1700000000'' 1700000005)) ''cursor:BTCUSDT'' =
     Inr (Some [(''key'', VText ''cursor:BTCUSDT''), (''value'', VText ''1700000000''),
                (''updated_at'', VNum 1700000005)]) \<and>
   get_kv (snd (set_kv (snd (set_kv kv_db ''cursor:BTCUSDT'' ''1700000000'' 1700000005))
                  ''cursor:BTCUSDT'' ''1700000060'' 1700000065)) ''cursor:BTCUSDT'' =
     Inr (Some [(''key'', VText ''cursor:BTCUSDT''), (''value'', VText ''1700000060''),
                (''updated_at'', VNum 1700000065)]) \<and>
   set_kv kv_db ''cursor:BTCUSDT'' ''1700000000'' (- (2 ^ 63) - 1) =
     (Inl (OverflowError ''Python int too large to convert to SQLite INTEGER''), kv_db)"
proof -
  have h: "has_table kv_db ''kv_state'' [''key''] [''key'', ''value'', ''updated_at'']"
    by (simp add: has_table_def kv_db_def)
  have r1: "int64 1700000005" and r2: "int64 1700000065" and r3: "\<not> int64 (- (2 ^ 63) - 1)"
    by (simp_all add: int64_def)
  from set_kv_get_kv_last_write_wins [OF h, of 1700000005 "''cursor:BTCUSDT''" "''1700000000''"
      1700000065 "''1700000060''"]
    set_kv_get_kv_last_write_wins [OF h, of "- (2 ^ 63) - 1" "''cursor:BTCUSDT''" "''1700000000''"
      0 "''''"]
    r1 r2 r3
  show ?thesis by simp
qed

section \<open>Claim C10: an upsert by id that names only the id\<close>

text \<open>
  C10. For each of \<open>insert_event\<close>, \<open>upsert_rule\<close> and \<open>upsert_token\<close>: when the payload
  holds the key column \<open>id\<close> and nothing else, and a row with that id is stored, the
  statement built is an \<open>ON CONFLICT(id) DO NOTHING\<close>; the call raises nothing and returns
  the store exactly as it was.
\<close>

theorem upsert_by_id_only_id_is_noop:
  assumes "(op, tbl) \<in> {(insert_event, ''events''), (upsert_rule, ''price_alert_rules''),
                         (upsert_token, ''token_registry'')}"
    and "d tbl = Some t" and "tkey t = [''id'']" and "''id'' \<in> set (tcols t)"
    and "v \<noteq> VNull" and "\<exists>r\<in>set (trows t). r ''id'' = v"
  shows "op d [(''id'', v)] = (Inr (), d)"
proof -
  note core = by_id_only_id [where d = d and tbl = tbl and t = t and v = v, OF assms(2-6)]
  from assms(1) consider
      "op = insert_event" "tbl = ''events''"
    | "op = upsert_rule" "tbl = ''price_alert_rules''"
    | "op = upsert_token" "tbl = ''token_registry''"
    by auto
  then show ?thesis
  proof cases
    case 1
    then show ?thesis
      using core by (simp add: insert_event_def keys_def)
  next
    case 2
    then show ?thesis
      using core by (simp add: upsert_rule_def keys_def)
  next
    case 3
    then show ?thesis
      using core by (simp add: upsert_token_def keys_def)
  qed
qed

theorem upsert_by_id_only_id_is_noop_witness:
  "upsert_rule rules_db [(''id'', VText ''r1'')] = (Inr (), rules_db)"
  by (rule upsert_by_id_only_id_is_noop [where tbl = "''price_alert_rules''"
        and t = "\<lparr>tcols = [''id'', ''symbol'', ''level''], tkey = [''id''],
      trows = [row_of [(''id'', VText ''r1''), (''symbol'', VText ''BTCUSDT''), (''level'', VNum 100)]]\<rparr>"])
     (simp_all add: rules_db_def row_of_def)

end
